theory Spec2Isabelle
  imports Complex_Main "HOL-Library.Char_ord" "HOL-Library.AList"
begin

section \<open>Python strings\<close>

text \<open>
  A \<^typ>\<open>string\<close> is read as a Python \<open>str\<close> whose code points are all below 256,
  one \<^typ>\<open>char\<close> per code point.
\<close>

definition is_space :: "char \<Rightarrow> bool" where
  \<comment> \<open>\<open>str.isspace\<close> (and the regex class \<open>\s\<close>) on the code points below 256:
      9..13, 28..32, 133 and 160.\<close>
  "is_space c =
     (let n = (of_char c :: nat)
      in (9 \<le> n \<and> n \<le> 13) \<or> (28 \<le> n \<and> n \<le> 32) \<or> n = 133 \<or> n = 160)"

definition strip :: "string \<Rightarrow> string" where
  \<comment> \<open>\<open>s.strip()\<close>\<close>
  "strip s = rev (dropWhile is_space (rev (dropWhile is_space s)))"

definition lower_chr :: "char \<Rightarrow> char" where
  \<comment> \<open>\<open>c.lower()\<close> on the code points below 256: A..Z and the accented capitals
      192..222 (215, the multiplication sign, apart) move up by 32.\<close>
  "lower_chr c =
     (let n = (of_char c :: nat)
      in if (65 \<le> n \<and> n \<le> 90) \<or> (192 \<le> n \<and> n \<le> 222 \<and> n \<noteq> 215)
         then char_of (n + 32) else c)"

definition lower :: "string \<Rightarrow> string" where
  "lower s = map lower_chr s"

definition startswith :: "string \<Rightarrow> string \<Rightarrow> bool" where
  \<comment> \<open>\<open>s.startswith(p)\<close>\<close>
  "startswith s p = (take (length p) s = p)"

definition replace_chr :: "char \<Rightarrow> char \<Rightarrow> string \<Rightarrow> string" where
  \<comment> \<open>\<open>s.replace(a, b)\<close> for one-character \<open>a\<close> and \<open>b\<close>\<close>
  "replace_chr a b s = map (\<lambda>c. if c = a then b else c) s"

section \<open>The regular expressions of the script\<close>

text \<open>
  The three patterns of \<open>derive_caption_from_live_title\<close> are built from literals,
  starred character classes, sequence, alternation and the anchor \<open>$\<close>. The matcher
  returns, for a pattern and a text, the lengths of the prefixes the pattern can match,
  in the order a backtracking matcher tries them (greedy first), as \<open>re\<close> does.
\<close>

datatype cclass = CSpace | CNot char

datatype rx = RLit char | RStar cclass | RPlus cclass | RSeq rx rx | RAlt rx rx | REnd

fun cls_match :: "cclass \<Rightarrow> char \<Rightarrow> bool" where
  "cls_match CSpace c = is_space c"
| "cls_match (CNot x) c = (c \<noteq> x)"

fun rx_ends :: "bool \<Rightarrow> rx \<Rightarrow> string \<Rightarrow> nat list" where
  "rx_ends ic (RLit c) s =
     (case s of [] \<Rightarrow> []
      | x # _ \<Rightarrow> if (if ic then lower_chr x = lower_chr c else x = c) then [1] else [])"
| "rx_ends ic (RStar k) s = rev [0 ..< Suc (length (takeWhile (cls_match k) s))]"
| "rx_ends ic (RPlus k) s = rev [1 ..< Suc (length (takeWhile (cls_match k) s))]"
| "rx_ends ic (RSeq r q) s =
     concat (map (\<lambda>n. map (\<lambda>m. n + m) (rx_ends ic q (drop n s))) (rx_ends ic r s))"
| "rx_ends ic (RAlt r q) s = rx_ends ic r s @ rx_ends ic q s"
| "rx_ends ic REnd s = (if s = [] \<or> s = [CHR 0x0A] then [0] else [])"
  \<comment> \<open>without \<open>re.MULTILINE\<close>, \<open>$\<close> matches at the end and before a final newline\<close>

primrec rx_lit :: "char \<Rightarrow> string \<Rightarrow> rx" where
  \<comment> \<open>the literal word \<open>c # cs\<close>\<close>
  "rx_lit c [] = RLit c"
| "rx_lit c (d # ds) = RSeq (RLit c) (rx_lit d ds)"

fun re_search :: "bool \<Rightarrow> rx \<Rightarrow> string \<Rightarrow> nat option" where
  \<comment> \<open>\<open>re.search(r, s)\<close>: the length of the leftmost match (\<open>len(m.group(0))\<close>), if any\<close>
  "re_search ic r [] = (case rx_ends ic r [] of [] \<Rightarrow> None | n # _ \<Rightarrow> Some n)"
| "re_search ic r (c # cs) =
     (case rx_ends ic r (c # cs) of [] \<Rightarrow> re_search ic r cs | n # _ \<Rightarrow> Some n)"

fun re_sub :: "bool \<Rightarrow> rx \<Rightarrow> string \<Rightarrow> string \<Rightarrow> string" where
  \<comment> \<open>\<open>re.sub(r, rep, s)\<close> for a plain replacement text. The patterns of the script
      match no empty text; an empty match is replaced and the scan moves on by one.\<close>
  "re_sub ic r rep [] = (case rx_ends ic r [] of [] \<Rightarrow> [] | _ # _ \<Rightarrow> rep)"
| "re_sub ic r rep (c # cs) =
     (case rx_ends ic r (c # cs) of
        [] \<Rightarrow> c # re_sub ic r rep cs
      | n # _ \<Rightarrow> if n = 0 then rep @ c # re_sub ic r rep cs
                 else rep @ re_sub ic r rep (drop (n - 1) cs))"

definition EXT_RE :: rx where
  \<comment> \<open>\<open>\.(pdf|jpg|jpeg|png|tif|tiff|djvu)$\<close>\<close>
  "EXT_RE =
     RSeq (RLit (CHR ''.''))
       (RSeq (RAlt (rx_lit (CHR ''p'') ''df'') (RAlt (rx_lit (CHR ''j'') ''pg'') (RAlt (rx_lit (CHR ''j'') ''peg'')
               (RAlt (rx_lit (CHR ''p'') ''ng'') (RAlt (rx_lit (CHR ''t'') ''if'') (RAlt (rx_lit (CHR ''t'') ''iff'')
               (rx_lit (CHR ''d'') ''jvu'')))))))
             REnd)"

definition IA_TRAIL_RE :: rx where
  \<comment> \<open>\<open>\s*\(IA[^)]*\)\s*$\<close>\<close>
  "IA_TRAIL_RE =
     RSeq (RStar CSpace) (RSeq (RLit (CHR ''('')) (RSeq (rx_lit (CHR ''I'') ''A'')
       (RSeq (RStar (CNot (CHR '')''))) (RSeq (RLit (CHR '')'')) (RSeq (RStar CSpace) REnd)))))"

definition derive_caption_from_live_title :: "string \<Rightarrow> string" where
  "derive_caption_from_live_title live_title =
     (if strip live_title = [] then []
      else
        let name = strip live_title;
            name = (if lower (take 5 name) = ''file:'' then drop 5 name else name);
            name = strip (replace_chr (CHR ''_'') (CHR '' '') name);
            name = (case re_search True EXT_RE name of
                      None \<Rightarrow> name
                    | Some n \<Rightarrow> if n = 0 then [] else take (length name - n) name);
            name = strip (re_sub True IA_TRAIL_RE [] name);
            name = strip (re_sub False (RPlus CSpace) '' '' name)
        in name)"

section \<open>JSON values and Python's view of them\<close>

text \<open>
  A decoded JSON document, which is also the Python value the script inspects: \<open>JNull\<close>
  is \<open>None\<close>, \<open>JObj\<close> a \<open>dict\<close> (an association list, the first binding of a key
  counting), \<open>JList\<close> a \<open>list\<close>. Numbers are integers.
\<close>

datatype json = JNull | JBool bool | JInt int | JStr string | JList "json list"
  | JObj "(string \<times> json) list"

datatype body = NotJson | Json json

datatype error =
    TypeError string
  | ValueError string
  | RuntimeError string
  | AttributeError
  | ApiError string json   \<comment> \<open>the \<open>RuntimeError\<close> of \<open>mw_mutate\<close>: action and error payload\<close>
  | HTTPError nat body     \<comment> \<open>\<open>requests.HTTPError\<close> with the status and body of its response\<close>
  | RequestException       \<comment> \<open>any other \<open>requests.RequestException\<close>: timeout, connection\<close>
  | JSONDecodeError        \<comment> \<open>\<open>requests.JSONDecodeError\<close>, a \<open>RequestException\<close> and a \<open>ValueError\<close>\<close>
  | SystemExit

fun truthy :: "json \<Rightarrow> bool" where
  "truthy JNull = False"
| "truthy (JBool b) = b"
| "truthy (JInt n) = (n \<noteq> 0)"
| "truthy (JStr s) = (s \<noteq> [])"
| "truthy (JList xs) = (xs \<noteq> [])"
| "truthy (JObj kvs) = (kvs \<noteq> [])"

fun dict_get :: "json \<Rightarrow> string \<Rightarrow> error + json" where
  \<comment> \<open>\<open>x.get(k)\<close>: \<open>None\<close> for a missing key, \<open>AttributeError\<close> when \<open>x\<close> is no dict\<close>
  "dict_get (JObj kvs) k = Inr (case map_of kvs k of None \<Rightarrow> JNull | Some v \<Rightarrow> v)"
| "dict_get _ k = Inl AttributeError"

definition is_digit :: "char \<Rightarrow> bool" where
  "is_digit c = (let n = (of_char c :: nat) in 48 \<le> n \<and> n \<le> 57)"

fun py_digits :: "string \<Rightarrow> int \<Rightarrow> bool \<Rightarrow> int option" where
  \<comment> \<open>decimal digits, single underscores allowed between two digits\<close>
  "py_digits [] acc prev = (if prev then Some acc else None)"
| "py_digits (c # cs) acc prev =
     (if is_digit c then py_digits cs (acc * 10 + (int (of_char c) - 48)) True
      else if c = CHR ''_'' \<and> prev then py_digits cs acc False
      else None)"

definition py_int :: "string \<Rightarrow> int option" where
  \<comment> \<open>\<open>int(s)\<close> for a string; \<open>None\<close> is \<open>ValueError\<close>\<close>
  "py_int s =
     (case strip s of
        [] \<Rightarrow> None
      | c # cs \<Rightarrow>
          if c = CHR ''-'' then map_option uminus (py_digits cs 0 False)
          else if c = CHR ''+'' then py_digits cs 0 False
          else py_digits (c # cs) 0 False)"

fun py_int_of :: "json \<Rightarrow> int option" where
  \<comment> \<open>\<open>int(x)\<close>; \<open>None\<close> is \<open>ValueError\<close> or \<open>TypeError\<close>\<close>
  "py_int_of (JInt n) = Some n"
| "py_int_of (JBool b) = Some (if b then 1 else 0)"
| "py_int_of (JStr s) = py_int s"
| "py_int_of _ = None"

fun py_eq_int :: "json \<Rightarrow> int \<Rightarrow> bool" where
  \<comment> \<open>\<open>x == n\<close> for an integer \<open>n\<close>; \<open>True == 1\<close> in Python\<close>
  "py_eq_int (JInt k) n = (k = n)"
| "py_eq_int (JBool b) n = ((if b then 1 else 0) = n)"
| "py_eq_int _ n = False"

fun contains :: "string \<Rightarrow> string \<Rightarrow> bool" where
  \<comment> \<open>\<open>p in s\<close> for two strings\<close>
  "contains p [] = (p = [])"
| "contains p (c # cs) = (startswith (c # cs) p \<or> contains p cs)"

definition is_mid :: "string \<Rightarrow> bool" where
  \<comment> \<open>\<open>re.fullmatch(r"[Mm]\d+", s)\<close>\<close>
  "is_mid s =
     (case s of [] \<Rightarrow> False
      | c # ds \<Rightarrow> (c = CHR ''M'' \<or> c = CHR ''m'') \<and> ds \<noteq> [] \<and> list_all is_digit ds)"

section \<open>Configuration\<close>

definition USER_AGENT :: string where
  \<comment> \<open>the default of \<open>WIKIMEDIA_USER_AGENT\<close>\<close>
  "USER_AGENT = ''KB-SDC-ResolverURL-Captions/1.0 (olaf.janssen@kb.nl) - Olaf Janssen, KB, national library of the Netherlands''"

definition RETRYABLE_STATUS :: "nat set" where
  "RETRYABLE_STATUS = {502, 503, 504}"

definition RETRYABLE_API_CODES :: "string set" where
  "RETRYABLE_API_CODES = {''maxlag'', ''ratelimited'', ''internal_api_error''}"

definition RETRYABLE_AUTH_CODES :: "string set" where
  "RETRYABLE_AUTH_CODES = {''badtoken'', ''assertuserfailed'', ''assertnameduserfailed'', ''notloggedin''}"

definition P_SOURCE_OF_FILE :: string where "P_SOURCE_OF_FILE = ''P7482''"
definition Q_FILE_ONLINE :: int where "Q_FILE_ONLINE = 74228490"
definition P_DESCRIBED_AT_URL :: string where "P_DESCRIBED_AT_URL = ''P973''"
definition P_OPERATOR :: string where "P_OPERATOR = ''P137''"
definition Q_DELPHER :: int where "Q_DELPHER = 20670235"

section \<open>The wiki and the network\<close>

text \<open>
  What the script exchanges with the Action API. A request keeps the fields that vary
  (the constant ones, \<open>format\<close>, \<open>maxlag\<close>, \<open>assert\<close>, \<open>bot\<close>, \<open>snaktype\<close>, are left out),
  with \<open>value\<close> before \<open>json.dumps\<close>. A reply is what \<open>requests\<close> hands back:
  no response at all (a transport exception), or a status, the \<open>Retry-After\<close> header
  and a body. \<open>RaSeconds x\<close> is a header text that \<open>float\<close> reads as \<open>x\<close>, \<open>RaOther\<close> one
  on which \<open>float\<close> raises (an HTTP date).
\<close>

datatype get_request =
    WbGetClaims string string     \<comment> \<open>entity, property\<close>
  | WbGetEntities string          \<comment> \<open>ids, with \<open>props=labels\<close>\<close>
  | QueryCsrfToken

datatype post_request =
    WbCreateClaim string string json    \<comment> \<open>entity, property, value\<close>
  | WbSetQualifier string string json   \<comment> \<open>claim, property, value\<close>
  | WbSetLabel string string string     \<comment> \<open>id, language, value\<close>

fun action_of :: "post_request \<Rightarrow> string" where
  "action_of (WbCreateClaim _ _ _) = ''wbcreateclaim''"
| "action_of (WbSetQualifier _ _ _) = ''wbsetqualifier''"
| "action_of (WbSetLabel _ _ _) = ''wbsetlabel''"

datatype retry_after = RaNone | RaSeconds real | RaOther

datatype reply = NoResponse | Response nat retry_after body

datatype event =
    EGet get_request
  | EPost post_request string   \<comment> \<open>the request and the token it carried\<close>
  | ESleep real

text \<open>
  The world the script runs in. \<open>statements\<close> and \<open>captions\<close> are the wiki's content:
  (entity, property, claim) and (entity, language, text). The scripted replies are
  answered first, one per request, whatever the request; once a script is used up the
  wiki answers by itself and writes take effect. \<open>randoms\<close> are the coming values of
  \<open>random.random()\<close>, \<open>trace\<close> what the script has done so far.
\<close>

record world =
  statements :: "(string \<times> string \<times> json) list"
  captions :: "(string \<times> string \<times> string) list"
  next_guid :: nat
  csrf_now :: string
  scripted_gets :: "reply list"
  scripted_posts :: "reply list"
  randoms :: "real list"
  trace :: "event list"

definition new_guid :: "string \<Rightarrow> nat \<Rightarrow> string" where
  "new_guid mid n = mid @ ''$'' @ replicate (Suc n) (CHR ''A'')"

definition snak_of :: "string \<Rightarrow> json \<Rightarrow> json" where
  "snak_of prop val =
     JObj [(''snaktype'', JStr ''value''), (''property'', JStr prop),
           (''datavalue'', JObj [(''value'', val),
              (''type'', JStr (case val of JStr _ \<Rightarrow> ''string'' | _ \<Rightarrow> ''wikibase-entityid''))])]"

definition has_claim_id :: "string \<Rightarrow> json \<Rightarrow> bool" where
  "has_claim_id cid c = (case c of JObj kvs \<Rightarrow> map_of kvs ''id'' = Some (JStr cid) | _ \<Rightarrow> False)"

definition with_qualifier :: "string \<Rightarrow> json \<Rightarrow> json \<Rightarrow> json" where
  \<comment> \<open>the claim with one more qualifier snak under \<open>prop\<close>\<close>
  "with_qualifier prop val c =
     (case c of
        JObj kvs \<Rightarrow>
          (let qs = (case map_of kvs ''qualifiers'' of Some (JObj q) \<Rightarrow> q | _ \<Rightarrow> []);
               old = (case map_of qs prop of Some (JList xs) \<Rightarrow> xs | _ \<Rightarrow> [])
           in JObj (AList.update ''qualifiers''
                      (JObj (AList.update prop (JList (old @ [snak_of prop val])) qs)) kvs))
      | _ \<Rightarrow> c)"

definition stored_claims :: "string \<Rightarrow> string \<Rightarrow> world \<Rightarrow> json list" where
  \<comment> \<open>the claims of a property that the wiki holds for an entity\<close>
  "stored_claims mid prop w =
     map (\<lambda>(m, p, c). c) (filter (\<lambda>(m, p, c). m = mid \<and> p = prop) (statements w))"

definition serve_get :: "get_request \<Rightarrow> world \<Rightarrow> json" where
  "serve_get rq w =
     (case rq of
        WbGetClaims mid prop \<Rightarrow>
          (let cs = stored_claims mid prop w
           in JObj [(''claims'', if cs = [] then JObj [] else JObj [(prop, JList cs)])])
      | WbGetEntities mid \<Rightarrow>
          JObj [(''entities'',
                 JObj [(mid, JObj [(''type'', JStr ''mediainfo''), (''id'', JStr mid),
                    (''labels'',
                     JObj (map (\<lambda>(m, l, t). (l, JObj [(''language'', JStr l), (''value'', JStr t)]))
                             (filter (\<lambda>(m, l, t). m = mid) (captions w))))])]),
                (''success'', JInt 1)]
      | QueryCsrfToken \<Rightarrow>
          JObj [(''batchcomplete'', JStr []),
                (''query'', JObj [(''tokens'', JObj [(''csrftoken'', JStr (csrf_now w))])])])"

definition serve_post :: "post_request \<Rightarrow> world \<Rightarrow> json \<times> world" where
  "serve_post rq w =
     (case rq of
        WbCreateClaim mid prop val \<Rightarrow>
          (let c = JObj [(''id'', JStr (new_guid mid (next_guid w))), (''mainsnak'', snak_of prop val),
                         (''type'', JStr ''statement''), (''rank'', JStr ''normal'')]
           in (JObj [(''success'', JInt 1), (''claim'', c)],
               w\<lparr>statements := statements w @ [(mid, prop, c)], next_guid := Suc (next_guid w)\<rparr>))
      | WbSetQualifier cid prop val \<Rightarrow>
          if list_ex (\<lambda>(m, p, c). has_claim_id cid c) (statements w)
          then (JObj [(''success'', JInt 1)],
                w\<lparr>statements :=
                    map (\<lambda>(m, p, c). (m, p, if has_claim_id cid c then with_qualifier prop val c else c))
                      (statements w)\<rparr>)
          else (JObj [(''error'', JObj [(''code'', JStr ''no-such-claim'')])], w)
      | WbSetLabel mid lang text \<Rightarrow>
          (JObj [(''success'', JInt 1)],
           w\<lparr>captions := filter (\<lambda>(m, l, t). \<not> (m = mid \<and> l = lang)) (captions w) @ [(mid, lang, text)]\<rparr>))"

definition http_get :: "get_request \<Rightarrow> world \<Rightarrow> reply \<times> world" where
  \<comment> \<open>\<open>session.get\<close>\<close>
  "http_get rq w =
     (let w1 = w\<lparr>trace := trace w @ [EGet rq]\<rparr>
      in case scripted_gets w of
           r # rs \<Rightarrow> (r, w1\<lparr>scripted_gets := rs\<rparr>)
         | [] \<Rightarrow> (Response 200 RaNone (Json (serve_get rq w)), w1))"

definition http_post :: "post_request \<Rightarrow> string \<Rightarrow> world \<Rightarrow> reply \<times> world" where
  \<comment> \<open>\<open>session.post\<close>\<close>
  "http_post rq token w =
     (let w1 = w\<lparr>trace := trace w @ [EPost rq token]\<rparr>
      in case scripted_posts w of
           r # rs \<Rightarrow> (r, w1\<lparr>scripted_posts := rs\<rparr>)
         | [] \<Rightarrow> (let (j, w2) = serve_post rq w1 in (Response 200 RaNone (Json j), w2)))"

definition raises_for_status :: "nat \<Rightarrow> bool" where
  \<comment> \<open>\<open>r.raise_for_status()\<close> of \<open>requests\<close> raises on the statuses 400 to 599\<close>
  "raises_for_status st = (400 \<le> st \<and> st < 600)"

definition draw_random :: "world \<Rightarrow> real \<times> world" where
  \<comment> \<open>\<open>random.random()\<close>\<close>
  "draw_random w = (case randoms w of x # xs \<Rightarrow> (x, w\<lparr>randoms := xs\<rparr>) | [] \<Rightarrow> (0, w))"

definition time_sleep :: "real \<Rightarrow> world \<Rightarrow> world" where
  "time_sleep d w = w\<lparr>trace := trace w @ [ESleep d]\<rparr>"

section \<open>Requests\<close>

definition mw_request :: "get_request \<Rightarrow> world \<Rightarrow> (error + json) \<times> world" where
  \<comment> \<open>\<open>mw_request(session, "GET", params)\<close>: every read of the script. The handlers
      log and re-raise.\<close>
  "mw_request rq w =
     (let (r, w1) = http_get rq w
      in case r of
           NoResponse \<Rightarrow> (Inl RequestException, w1)
         | Response st ra b \<Rightarrow>
             if raises_for_status st then (Inl (HTTPError st b), w1)
             else (case b of NotJson \<Rightarrow> (Inl JSONDecodeError, w1) | Json j \<Rightarrow> (Inr j, w1)))"

definition fetch_csrf :: "string \<Rightarrow> world \<Rightarrow> (error + string) \<times> world" where
  "fetch_csrf user_agent w =
     (if strip user_agent = [] then (Inl (TypeError ''fetch_csrf: user_agent''), w)
      else
        let (r, w1) = http_get QueryCsrfToken w
        in case r of
             NoResponse \<Rightarrow> (Inl (RuntimeError ''Failed to fetch CSRF token''), w1)
           | Response st ra b \<Rightarrow>
               if raises_for_status st then (Inl (RuntimeError ''Failed to fetch CSRF token''), w1)
               else (case b of
                  NotJson \<Rightarrow> (Inl (RuntimeError ''CSRF token response is not valid JSON''), w1)
                | Json j \<Rightarrow>
                    (case dict_get j ''query'' of
                       Inl e \<Rightarrow> (Inl e, w1)
                     | Inr q \<Rightarrow>
                        (case (if truthy q then q else JObj []) of
                           JObj qkv \<Rightarrow>
                             (case (case map_of qkv ''tokens'' of None \<Rightarrow> JObj [] | Some t \<Rightarrow> t) of
                                JObj tkv \<Rightarrow>
                                  (case map_of tkv ''csrftoken'' of
                                     Some (JStr token) \<Rightarrow>
                                       if strip token = []
                                       then (Inl (RuntimeError ''No CSRF token found in API response''), w1)
                                       else (Inr token, w1)
                                   | _ \<Rightarrow> (Inl (RuntimeError ''No CSRF token found in API response''), w1))
                              | _ \<Rightarrow> (Inl AttributeError, w1))
                         | _ \<Rightarrow> (Inl AttributeError, w1)))))"

fun contains_error_key :: "json \<Rightarrow> error + bool" where
  \<comment> \<open>\<open>"error" in j\<close>\<close>
  "contains_error_key (JObj kvs) = Inr (map_of kvs ''error'' \<noteq> None)"
| "contains_error_key (JList xs) = Inr (JStr ''error'' \<in> set xs)"
| "contains_error_key (JStr s) = Inr (contains ''error'' s)"
| "contains_error_key _ = Inl (TypeError ''argument is not iterable'')"

definition api_error_code :: "json \<Rightarrow> error + string" where
  \<comment> \<open>\<open>(err.get("code") or "").lower()\<close>\<close>
  "api_error_code err =
     (case dict_get err ''code'' of
        Inl e \<Rightarrow> Inl e
      | Inr c \<Rightarrow>
          if truthy c then (case c of JStr s \<Rightarrow> Inr (lower s) | _ \<Rightarrow> Inl AttributeError)
          else Inr [])"

definition backoff :: "real \<Rightarrow> nat \<Rightarrow> world \<Rightarrow> real \<times> world" where
  \<comment> \<open>\<open>base_sleep * (2 ** (attempt - 1)) * (0.8 + 0.4 * random.random())\<close>\<close>
  "backoff base_sleep attempt w =
     (let (x, w1) = draw_random w in (base_sleep * 2 ^ (attempt - 1) * (0.8 + 0.4 * x), w1))"

datatype outcome = Continue string | Return json string | Raise error

definition on_request_exception ::
  "nat \<Rightarrow> real \<Rightarrow> nat \<Rightarrow> string \<Rightarrow> error \<Rightarrow> world \<Rightarrow> outcome \<times> world" where
  \<comment> \<open>the handler \<open>except requests.RequestException\<close> of \<open>mw_mutate\<close>\<close>
  "on_request_exception max_retries base_sleep attempt token e w =
     (if attempt \<le> max_retries
      then (let (sleep, w1) = backoff base_sleep attempt w in (Continue token, time_sleep sleep w1))
      else (Raise e, w))"

definition mw_attempt ::
  "string \<Rightarrow> nat \<Rightarrow> real \<Rightarrow> post_request \<Rightarrow> nat \<Rightarrow> string \<Rightarrow> world \<Rightarrow> outcome \<times> world" where
  \<comment> \<open>one turn of the \<open>while True\<close> of \<open>mw_mutate\<close>, \<open>attempt\<close> already incremented\<close>
  "mw_attempt user_agent max_retries base_sleep rq attempt token w =
     (let (r, w1) = http_post rq token w
      in case r of
           NoResponse \<Rightarrow> on_request_exception max_retries base_sleep attempt token RequestException w1
         | Response st ra b \<Rightarrow>
             if st \<in> RETRYABLE_STATUS then
               (let (sleep, w2) =
                      (case ra of
                         RaSeconds x \<Rightarrow> (max x base_sleep, w1)
                       | RaOther \<Rightarrow> (base_sleep, w1)
                       | RaNone \<Rightarrow> backoff base_sleep attempt w1)
                in if attempt \<le> max_retries then (Continue token, time_sleep sleep w2)
                   else \<comment> \<open>\<open>r.raise_for_status()\<close> raises on 502, 503 and 504, into the handler\<close>
                     on_request_exception max_retries base_sleep attempt token (HTTPError st b) w2)
             else if raises_for_status st
             then on_request_exception max_retries base_sleep attempt token (HTTPError st b) w1
             else
               (case b of
                  NotJson \<Rightarrow> on_request_exception max_retries base_sleep attempt token JSONDecodeError w1
                | Json j \<Rightarrow>
                   (case contains_error_key j of
                      Inl e \<Rightarrow> (Raise e, w1)
                    | Inr False \<Rightarrow> (Return j token, w1)
                    | Inr True \<Rightarrow>
                       (case j of
                          JObj kvs \<Rightarrow>
                            (let err = (case map_of kvs ''error'' of Some v \<Rightarrow> v | None \<Rightarrow> JNull)
                             in case api_error_code err of
                                  Inl e \<Rightarrow> (Raise e, w1)
                                | Inr code \<Rightarrow>
                                    if code \<in> RETRYABLE_API_CODES \<and> attempt \<le> max_retries then
                                      (let (sleep, w2) = backoff base_sleep attempt w1
                                       in (Continue token, time_sleep sleep w2))
                                    else if code \<in> RETRYABLE_AUTH_CODES \<and> attempt \<le> max_retries then
                                      (case fetch_csrf user_agent w1 of
                                         (Inl e, w2) \<Rightarrow> (Raise e, w2)
                                       | (Inr token', w2) \<Rightarrow> (Continue token', w2))
                                    else (Raise (ApiError (action_of rq) err), w1))
                        | _ \<Rightarrow> (Raise (TypeError ''indices must be integers''), w1)))))"

function mw_mutate_loop ::
  "string \<Rightarrow> nat \<Rightarrow> real \<Rightarrow> post_request \<Rightarrow> nat \<Rightarrow> string \<Rightarrow> world
     \<Rightarrow> (error + json \<times> string) \<times> world" where
  \<comment> \<open>the \<open>while True\<close> of \<open>mw_mutate\<close>; \<open>attempt\<close> counts the turns made so far\<close>
  "mw_mutate_loop user_agent max_retries base_sleep rq attempt token w =
     (case mw_attempt user_agent max_retries base_sleep rq (Suc attempt) token w of
        (Continue token', w') \<Rightarrow>
          mw_mutate_loop user_agent max_retries base_sleep rq (Suc attempt) token' w'
      | (Return j t, w') \<Rightarrow> (Inr (j, t), w')
      | (Raise e, w') \<Rightarrow> (Inl e, w'))"
  by pat_completeness auto
termination
proof (relation "measure (\<lambda>(ua, mr, bs, rq, attempt, token, w). Suc mr - attempt)")
  show "wf (measure (\<lambda>(ua, mr, bs, rq, attempt, token, w). Suc mr - attempt))" by simp
next
  fix user_agent :: string and max_retries :: nat and base_sleep :: real
    and rq attempt token w x1 x2 t
  assume a: "(x1, x2) = mw_attempt user_agent max_retries base_sleep rq (Suc attempt) token w"
    and b: "x1 = Continue t"
  have "Suc attempt \<le> max_retries"
    using a b unfolding mw_attempt_def on_request_exception_def
    by (auto simp: Let_def split: prod.splits reply.splits if_splits retry_after.splits
          body.splits sum.splits bool.splits json.splits)
  then show "((user_agent, max_retries, base_sleep, rq, Suc attempt, t, x2),
              (user_agent, max_retries, base_sleep, rq, attempt, token, w))
             \<in> measure (\<lambda>(ua, mr, bs, rq, attempt, token, w). Suc mr - attempt)"
    by simp
qed

definition mw_mutate ::
  "string \<Rightarrow> nat \<Rightarrow> real \<Rightarrow> post_request \<Rightarrow> string \<Rightarrow> world
     \<Rightarrow> (error + json \<times> string) \<times> world" where
  \<comment> \<open>\<open>mw_mutate(session, csrf_token, params, data, api_url=API_URL, user_agent=...,
      max_retries=..., base_sleep=...)\<close>; \<open>API_URL\<close> is a non-empty constant\<close>
  "mw_mutate user_agent max_retries base_sleep rq csrf_token w =
     (if csrf_token = [] then (Inl (TypeError ''mw_mutate: csrf_token''), w)
      else if strip user_agent = [] then (Inl (TypeError ''mw_mutate: user_agent''), w)
      else if base_sleep \<le> 0 then (Inl (TypeError ''mw_mutate: base_sleep''), w)
      else mw_mutate_loop user_agent max_retries base_sleep rq 0 csrf_token w)"

section \<open>Statements\<close>

definition no_such_entity :: "body \<Rightarrow> bool" where
  \<comment> \<open>\<open>(e.response.json().get("error") or {}).get("code") == "no-such-entity"\<close>, any
      exception on the way counting as no\<close>
  "no_such_entity b =
     (case b of
        NotJson \<Rightarrow> False
      | Json j \<Rightarrow>
          (case dict_get j ''error'' of
             Inl _ \<Rightarrow> False
           | Inr e \<Rightarrow>
               (case dict_get (if truthy e then e else JObj []) ''code'' of
                  Inl _ \<Rightarrow> False
                | Inr c \<Rightarrow> c = JStr ''no-such-entity'')))"

definition get_p7482_claims :: "string \<Rightarrow> world \<Rightarrow> (error + json list) \<times> world" where
  "get_p7482_claims mid w =
     (if \<not> is_mid (strip mid) then (Inr [], w)
      else
        case mw_request (WbGetClaims mid P_SOURCE_OF_FILE) w of
          (Inl (HTTPError st b), w1) \<Rightarrow>
            if no_such_entity b then (Inr [], w1) else (Inl (HTTPError st b), w1)
        | (Inl e, w1) \<Rightarrow> (Inl e, w1)
        | (Inr resp, w1) \<Rightarrow>
            (case dict_get resp ''claims'' of
               Inl e \<Rightarrow> (Inl e, w1)
             | Inr (JObj claims) \<Rightarrow>
                 (case map_of claims P_SOURCE_OF_FILE of
                    None \<Rightarrow> (Inr [], w1)
                  | Some (JList prop_claims) \<Rightarrow> (Inr prop_claims, w1)
                  | Some _ \<Rightarrow> (Inr [], w1))
             | Inr _ \<Rightarrow> (Inr [], w1)))"

definition qid_text_is :: "bool \<Rightarrow> string \<Rightarrow> int \<Rightarrow> bool" where
  \<comment> \<open>the fallback on \<open>"id": "Q123"\<close>: the text starts with \<open>Q\<close> (after \<open>upper()\<close> when
      \<open>any_case\<close>) and \<open>int\<close> of the rest is the number\<close>
  "qid_text_is any_case t n =
     (case t of
        [] \<Rightarrow> False
      | c # cs \<Rightarrow>
          (c = CHR ''Q'' \<or> (any_case \<and> c = CHR ''q'')) \<and> py_int cs = Some n)"

definition claim_has_value_q :: "json \<Rightarrow> int \<Rightarrow> bool" where
  "claim_has_value_q claim numeric_qid =
     (case claim of
        JObj c \<Rightarrow>
          (case map_of c ''mainsnak'' of
             Some (JObj snak) \<Rightarrow>
               if map_of snak ''snaktype'' \<noteq> Some (JStr ''value'') then False
               else
                 (case map_of snak ''datavalue'' of
                    Some (JObj dv) \<Rightarrow>
                      if map_of dv ''type'' \<noteq> Some (JStr ''wikibase-entityid'') then False
                      else
                        (case map_of dv ''value'' of
                           Some (JObj val) \<Rightarrow>
                             (case map_of val ''numeric-id'' of
                                Some n \<Rightarrow> py_int_of n = Some numeric_qid
                              | None \<Rightarrow>
                                  (case map_of val ''id'' of
                                     Some (JStr qid_str) \<Rightarrow> qid_text_is True qid_str numeric_qid
                                   | _ \<Rightarrow> False))
                         | _ \<Rightarrow> False)
                  | _ \<Rightarrow> False)
           | _ \<Rightarrow> False)
      | _ \<Rightarrow> False)"

definition qualifier_snaks :: "json \<Rightarrow> string \<Rightarrow> error + json list option" where
  \<comment> \<open>\<open>(claim.get("qualifiers") or {}).get(prop)\<close>, \<open>None\<close> when that is no list\<close>
  "qualifier_snaks claim prop =
     (case dict_get claim ''qualifiers'' of
        Inl e \<Rightarrow> Inl e
      | Inr q \<Rightarrow>
          (case dict_get (if truthy q then q else JObj []) prop of
             Inl e \<Rightarrow> Inl e
           | Inr (JList snaks) \<Rightarrow> Inr (Some snaks)
           | Inr _ \<Rightarrow> Inr None))"

definition snak_datavalue :: "json \<Rightarrow> (string \<times> json) list option" where
  \<comment> \<open>\<open>(snak or {}).get("datavalue")\<close> when it is a dict; an exception skips the snak\<close>
  "snak_datavalue snak =
     (case dict_get (if truthy snak then snak else JObj []) ''datavalue'' of
        Inr (JObj dv) \<Rightarrow> Some dv
      | _ \<Rightarrow> None)"

definition snak_is_url :: "string \<Rightarrow> json \<Rightarrow> bool" where
  "snak_is_url target snak =
     (case snak_datavalue snak of
        None \<Rightarrow> False
      | Some dv \<Rightarrow>
          if map_of dv ''type'' \<noteq> Some (JStr ''string'') then False
          else (case map_of dv ''value'' of Some (JStr val) \<Rightarrow> strip val = target | _ \<Rightarrow> False))"

definition claim_has_qualifier_url :: "json \<Rightarrow> string \<Rightarrow> string \<Rightarrow> error + bool" where
  "claim_has_qualifier_url claim prop url =
     (case claim of
        JObj _ \<Rightarrow>
          (case qualifier_snaks claim prop of
             Inl e \<Rightarrow> Inl e
           | Inr None \<Rightarrow> Inr False
           | Inr (Some snaks) \<Rightarrow> Inr (list_ex (snak_is_url (strip url)) snaks))
      | _ \<Rightarrow> Inr False)"

definition snak_is_q :: "int \<Rightarrow> json \<Rightarrow> bool" where
  "snak_is_q numeric_qid snak =
     (case snak_datavalue snak of
        None \<Rightarrow> False
      | Some dv \<Rightarrow>
          if map_of dv ''type'' \<noteq> Some (JStr ''wikibase-entityid'') then False
          else
            (case map_of dv ''value'' of
               Some (JObj val) \<Rightarrow>
                 py_eq_int (case map_of val ''numeric-id'' of None \<Rightarrow> JNull | Some n \<Rightarrow> n) numeric_qid
                 \<or> (case map_of val ''id'' of
                       Some (JStr v_id) \<Rightarrow> qid_text_is False v_id numeric_qid
                     | _ \<Rightarrow> False)
             | _ \<Rightarrow> False))"

definition claim_has_qualifier_q :: "json \<Rightarrow> string \<Rightarrow> int \<Rightarrow> error + bool" where
  "claim_has_qualifier_q claim prop numeric_qid =
     (case claim of
        JObj _ \<Rightarrow>
          (case qualifier_snaks claim prop of
             Inl e \<Rightarrow> Inl e
           | Inr None \<Rightarrow> Inr False
           | Inr (Some snaks) \<Rightarrow> Inr (list_ex (snak_is_q numeric_qid) snaks))
      | _ \<Rightarrow> Inr False)"

definition item_value :: "int \<Rightarrow> json" where
  \<comment> \<open>\<open>{"entity-type": "item", "numeric-id": n}\<close>\<close>
  "item_value n = JObj [(''entity-type'', JStr ''item''), (''numeric-id'', JInt n)]"

definition create_p7482_claim :: "string \<Rightarrow> string \<Rightarrow> world \<Rightarrow> (error + json \<times> string) \<times> world" where
  "create_p7482_claim csrf mid w =
     (if strip csrf = [] then (Inl (ValueError ''create_p7482_claim: csrf''), w)
      else if \<not> is_mid (strip mid) then (Inl (ValueError ''create_p7482_claim: invalid MediaInfo ID''), w)
      else
        case mw_mutate USER_AGENT 4 1 (WbCreateClaim mid P_SOURCE_OF_FILE (item_value Q_FILE_ONLINE)) csrf w of
          (Inl e, w1) \<Rightarrow> (Inl e, w1)
        | (Inr (j, new_token), w1) \<Rightarrow>
            (case dict_get (if truthy j then j else JObj []) ''claim'' of
               Inl e \<Rightarrow> (Inl e, w1)
             | Inr (JObj claim) \<Rightarrow>
                 (case map_of claim ''id'' of
                    None \<Rightarrow> (Inl (RuntimeError ''wbcreateclaim error: unexpected response''), w1)
                  | Some cid \<Rightarrow> (Inr (cid, new_token), w1))
             | Inr _ \<Rightarrow> (Inl (RuntimeError ''wbcreateclaim error: unexpected response''), w1)))"

definition usable_text :: "json \<Rightarrow> string option" where
  \<comment> \<open>\<open>isinstance(x, str) and x.strip()\<close>\<close>
  "usable_text x = (case x of JStr t \<Rightarrow> if strip t = [] then None else Some t | _ \<Rightarrow> None)"

definition after_mutate :: "string \<Rightarrow> (error + json \<times> string) \<times> world \<Rightarrow> (error + json \<times> string) \<times> world" where
  \<comment> \<open>\<open>if "error" in resp_json: raise RuntimeError(...)\<close>, then \<open>return resp_json, csrf\<close>\<close>
  "after_mutate msg res =
     (case res of
        (Inl e, w1) \<Rightarrow> (Inl e, w1)
      | (Inr (resp_json, csrf), w1) \<Rightarrow>
          (case contains_error_key resp_json of
             Inl e \<Rightarrow> (Inl e, w1)
           | Inr True \<Rightarrow> (Inl (RuntimeError msg), w1)
           | Inr False \<Rightarrow> (Inr (resp_json, csrf), w1)))"

definition add_qualifier_url ::
  "(string \<Rightarrow> error + string \<times> string) \<Rightarrow> string \<Rightarrow> json \<Rightarrow> string \<Rightarrow> string \<Rightarrow> world
     \<Rightarrow> (error + json \<times> string) \<times> world" where
  \<comment> \<open>\<open>urlparse\<close> gives the scheme and the netloc of \<open>urllib.parse.urlparse\<close>, or its
      \<open>ValueError\<close>\<close>
  "add_qualifier_url urlparse csrf claim_id prop url w =
     (case usable_text claim_id of
        None \<Rightarrow> (Inl (ValueError ''add_qualifier_url: invalid claim_id''), w)
      | Some cid \<Rightarrow>
          if strip prop = [] then (Inl (ValueError ''add_qualifier_url: invalid prop''), w)
          else if strip url = [] then (Inl (ValueError ''add_qualifier_url: url must be a non-empty string''), w)
          else
            (case urlparse (strip url) of
               Inl e \<Rightarrow> (Inl e, w)
             | Inr (scheme, netloc) \<Rightarrow>
                 if (scheme \<noteq> ''http'' \<and> scheme \<noteq> ''https'') \<or> netloc = []
                 then (Inl (ValueError ''add_qualifier_url: invalid absolute URL''), w)
                 else after_mutate ''wbsetqualifier (url) error''
                        (mw_mutate USER_AGENT 4 1 (WbSetQualifier cid prop (JStr (strip url))) csrf w)))"

definition add_qualifier_q ::
  "string \<Rightarrow> json \<Rightarrow> string \<Rightarrow> int \<Rightarrow> world \<Rightarrow> (error + json \<times> string) \<times> world" where
  "add_qualifier_q csrf claim_id prop numeric_qid w =
     (case usable_text claim_id of
        None \<Rightarrow> (Inl (ValueError ''add_qualifier_q: invalid claim_id''), w)
      | Some cid \<Rightarrow>
          if strip prop = [] then (Inl (ValueError ''add_qualifier_q: invalid prop''), w)
          else if numeric_qid \<le> 0 then (Inl (ValueError ''add_qualifier_q: invalid numeric_qid''), w)
          else after_mutate ''wbsetqualifier (Q) error''
                 (mw_mutate USER_AGENT 4 1 (WbSetQualifier cid prop (item_value numeric_qid)) csrf w))"

definition ensure_statement ::
  "(string \<Rightarrow> error + string \<times> string) \<Rightarrow> string \<Rightarrow> string \<Rightarrow> string \<Rightarrow> world
     \<Rightarrow> (error + string \<times> json \<times> string) \<times> world" where
  "ensure_statement urlparse csrf mid resolver_url w =
     (if strip mid = [] then (Inl (ValueError ''ensure_statement: invalid mid''), w)
      else if strip resolver_url = []
              \<or> \<not> (startswith resolver_url ''http://'' \<or> startswith resolver_url ''https://'')
      then (Inl (ValueError ''ensure_statement: invalid resolver_url''), w)
      else
        case get_p7482_claims mid w of
          (Inl e, w1) \<Rightarrow> (Inl e, w1)
        | (Inr existing, w1) \<Rightarrow>
            (case List.find (\<lambda>cl. claim_has_value_q cl Q_FILE_ONLINE) existing of
               None \<Rightarrow>
                 (case create_p7482_claim csrf mid w1 of
                    (Inl e, w2) \<Rightarrow> (Inl e, w2)
                  | (Inr (cid, csrf1), w2) \<Rightarrow>
                      (case add_qualifier_url urlparse csrf1 cid P_DESCRIBED_AT_URL resolver_url w2 of
                         (Inl e, w3) \<Rightarrow> (Inl e, w3)
                       | (Inr (_, csrf2), w3) \<Rightarrow>
                           (case add_qualifier_q csrf2 cid P_OPERATOR Q_DELPHER w3 of
                              (Inl e, w4) \<Rightarrow> (Inl e, w4)
                            | (Inr (_, csrf3), w4) \<Rightarrow> (Inr (''created'', cid, csrf3), w4))))
             | Some target \<Rightarrow>
                 (case dict_get target ''id'' of
                    Inl e \<Rightarrow> (Inl e, w1)
                  | Inr cid \<Rightarrow>
                      (case claim_has_qualifier_url target P_DESCRIBED_AT_URL resolver_url of
                         Inl e \<Rightarrow> (Inl e, w1)
                       | Inr has_url \<Rightarrow>
                           (case (if has_url then (Inr (JNull, csrf), w1)
                                  else add_qualifier_url urlparse csrf cid P_DESCRIBED_AT_URL resolver_url w1) of
                              (Inl e, w2) \<Rightarrow> (Inl e, w2)
                            | (Inr (_, csrf1), w2) \<Rightarrow>
                                (case claim_has_qualifier_q target P_OPERATOR Q_DELPHER of
                                   Inl e \<Rightarrow> (Inl e, w2)
                                 | Inr has_q \<Rightarrow>
                                     (case (if has_q then (Inr (JNull, csrf1), w2)
                                            else add_qualifier_q csrf1 cid P_OPERATOR Q_DELPHER w2) of
                                        (Inl e, w3) \<Rightarrow> (Inl e, w3)
                                      | (Inr (_, csrf2), w3) \<Rightarrow>
                                          (Inr (if \<not> has_url \<or> \<not> has_q then ''updated'' else ''already-present'',
                                                cid, csrf2), w3))))))))"

section \<open>Captions\<close>

fun collect_labels :: "(string \<times> json) list \<Rightarrow> error + (string \<times> string) list" where
  \<comment> \<open>the loop over \<open>labels.items()\<close> that fills \<open>out\<close>\<close>
  "collect_labels [] = Inr []"
| "collect_labels ((lang, obj) # rest) =
     (case (if truthy obj then obj else JObj []) of
        JObj okv \<Rightarrow>
          (case collect_labels rest of
             Inl e \<Rightarrow> Inl e
           | Inr out \<Rightarrow>
               (case map_of okv ''value'' of
                  Some (JStr val) \<Rightarrow> if strip val = [] then Inr out else Inr ((lang, strip val) # out)
                | _ \<Rightarrow> Inr out))
      | _ \<Rightarrow> Inl AttributeError)"

definition get_existing_labels :: "string \<Rightarrow> world \<Rightarrow> (error + (string \<times> string) list) \<times> world" where
  "get_existing_labels mid w =
     (if strip mid = [] then (Inl (ValueError ''get_existing_labels: empty or invalid mid''), w)
      else if \<not> is_mid (strip mid) then (Inl (ValueError ''get_existing_labels: MID must be M<digits>''), w)
      else
        let mid_norm = CHR ''M'' # tl (strip mid)
        in case mw_request (WbGetEntities mid_norm) w of
             (Inl (HTTPError st b), w1) \<Rightarrow>
               if no_such_entity b then (Inr [], w1) else (Inl (HTTPError st b), w1)
           | (Inl e, w1) \<Rightarrow> (Inl e, w1)
           | (Inr (JObj resp), w1) \<Rightarrow>
               (case map_of resp ''entities'' of
                  Some (JObj (first # others)) \<Rightarrow>
                    (let ent = (case map_of (first # others) mid_norm of
                                  None \<Rightarrow> snd first | Some JNull \<Rightarrow> snd first | Some e \<Rightarrow> e)
                     in case dict_get ent ''labels'' of
                          Inl e \<Rightarrow> (Inl e, w1)
                        | Inr l \<Rightarrow>
                            (case (if truthy l then l else JObj []) of
                               JObj labels \<Rightarrow>
                                 (case collect_labels (AList.clearjunk labels) of
                                    Inl e \<Rightarrow> (Inl e, w1)
                                  | Inr out \<Rightarrow> (Inr out, w1))
                             | _ \<Rightarrow> (Inr [], w1)))
                | _ \<Rightarrow> (Inr [], w1))
           | (Inr _, w1) \<Rightarrow> (Inl (RuntimeError ''wbgetentities: unexpected response type''), w1))"

definition set_label :: "string \<Rightarrow> string \<Rightarrow> string \<Rightarrow> string \<Rightarrow> world \<Rightarrow> (error + json) \<times> world" where
  "set_label csrf mid lang val w =
     (if strip mid = [] \<or> \<not> is_mid (strip mid) then (Inl (ValueError ''set_label: invalid MediaInfo ID''), w)
      else if strip lang = [] then (Inl (ValueError ''set_label: lang''), w)
      else if strip val = [] then (Inl (ValueError ''set_label: value''), w)
      else
        case mw_mutate USER_AGENT 4 1 (WbSetLabel (strip mid) (strip lang) val) csrf w of
          (Inl (HTTPError st b), w1) \<Rightarrow> (Inl (RuntimeError ''wbsetlabel HTTP''), w1)
        | (Inl e, w1) \<Rightarrow> (Inl (RuntimeError ''wbsetlabel transport/error''), w1)
        | (Inr (j, new_csrf), w1) \<Rightarrow>
            (case j of
               JObj kvs \<Rightarrow>
                 if map_of kvs ''error'' \<noteq> None then (Inl (RuntimeError ''wbsetlabel API error''), w1)
                 else (Inr j, w1)
             | _ \<Rightarrow> (Inr j, w1)))"

text \<open>
  A status cell of the sheet: a text, or \<open>error:\<close> followed by the message of an
  exception, whose wording is not modelled.
\<close>

datatype cell = Text string | ErrorText error

fun filled :: "cell \<Rightarrow> bool" where
  \<comment> \<open>the truth value of the cell's string\<close>
  "filled (Text t) = (t \<noteq> [])"
| "filled (ErrorText e) = True"

record row =
  status_col :: cell
  caption_en_status :: cell
  caption_nl_status :: cell
  caption_candidate :: string

definition on_caption_error :: "error \<Rightarrow> row \<Rightarrow> row" where
  \<comment> \<open>the two handlers of the caption block set what is still empty\<close>
  "on_caption_error e r =
     r\<lparr>caption_en_status := (if filled (caption_en_status r) then caption_en_status r else ErrorText e),
       caption_nl_status := (if filled (caption_nl_status r) then caption_nl_status r else ErrorText e)\<rparr>"

definition caption_block ::
  "string \<Rightarrow> string \<Rightarrow> string \<Rightarrow> row \<times> bool \<Rightarrow> world \<Rightarrow> (row \<times> bool) \<times> world" where
  \<comment> \<open>the caption block of \<open>main\<close> from the candidate on; the flag is \<open>row_had_change\<close>.
      Opening the browser is left out.\<close>
  "caption_block csrf mid candidate rc w =
     (case rc of (r0, changed) \<Rightarrow>
       let r1 = r0\<lparr>caption_candidate := candidate\<rparr>
       in if strip candidate = [] then
            ((r1\<lparr>caption_en_status :=
                    (if filled (caption_en_status r1) then caption_en_status r1
                     else Text ''skipped-empty-candidate''),
                  caption_nl_status :=
                    (if filled (caption_nl_status r1) then caption_nl_status r1
                     else Text ''skipped-empty-candidate'')\<rparr>, changed), w)
          else
            case get_existing_labels mid w of
              (Inl e, w1) \<Rightarrow> ((on_caption_error e r1, changed), w1)
            | (Inr labels, w1) \<Rightarrow>
                (case (if map_of labels ''en'' = None
                       then (case set_label csrf mid ''en'' candidate w1 of
                               (Inl e, w2) \<Rightarrow> (Inl e, w2)
                             | (Inr _, w2) \<Rightarrow> (Inr (r1\<lparr>caption_en_status := Text ''created''\<rparr>, True), w2))
                       else (Inr (r1\<lparr>caption_en_status := Text ''already-present''\<rparr>, changed), w1)) of
                   (Inl e, w2) \<Rightarrow> ((on_caption_error e r1, changed), w2)
                 | (Inr (r2, changed2), w2) \<Rightarrow>
                     (case (if map_of labels ''nl'' = None
                            then (case set_label csrf mid ''nl'' candidate w2 of
                                    (Inl e, w3) \<Rightarrow> (Inl e, w3)
                                  | (Inr _, w3) \<Rightarrow> (Inr (r2\<lparr>caption_nl_status := Text ''created''\<rparr>, True), w3))
                            else (Inr (r2\<lparr>caption_nl_status := Text ''already-present''\<rparr>, changed2), w2)) of
                        (Inl e, w3) \<Rightarrow> ((on_caption_error e r2, changed2), w3)
                      | (Inr (r3, changed3), w3) \<Rightarrow> ((r3, changed3), w3))))"

section \<open>Checkpoints\<close>

text \<open>
  The workbook: every frame \<open>write_back\<close> has written, in order, and the coming
  failures of writing (\<open>True\<close>: the file is locked), none once the list is used up.
\<close>

record 'r excel =
  saved :: "'r list list"
  write_faults :: "bool list"

definition write_back :: "'r list \<Rightarrow> 'r excel \<Rightarrow> error option \<times> 'r excel" where
  \<comment> \<open>every failure of writing ends in \<open>SystemExit(1)\<close>\<close>
  "write_back df_full x =
     (case write_faults x of
        True # fs \<Rightarrow> (Some SystemExit, x\<lparr>write_faults := fs\<rparr>)
      | False # fs \<Rightarrow> (None, x\<lparr>saved := saved x @ [df_full], write_faults := fs\<rparr>)
      | [] \<Rightarrow> (None, x\<lparr>saved := saved x @ [df_full]\<rparr>))"

text \<open>
  What the body of the row loop did with one row of \<open>work\<close>, before the checkpoint:
  the row as it now stands in \<open>df\<close> and \<open>row_had_change\<close>, or an exception that no
  handler of the body caught.
\<close>

datatype 'r row_result = RowDone 'r bool | RowRaised error

fun row_loop ::
  "nat \<Rightarrow> (nat \<times> 'r row_result) list \<Rightarrow> 'r list \<Rightarrow> nat \<Rightarrow> 'r excel
     \<Rightarrow> (error + 'r list \<times> nat) \<times> 'r excel" where
  \<comment> \<open>the \<open>for\<close> loop of \<open>main\<close> over \<open>work.iterrows()\<close>: index \<open>i\<close> of the row in \<open>df\<close>,
      \<open>success_since_flush\<close> as the counter\<close>
  "row_loop every [] df success_since_flush x = (Inr (df, success_since_flush), x)"
| "row_loop every ((i, RowRaised e) # work) df success_since_flush x = (Inl e, x)"
| "row_loop every ((i, RowDone r row_had_change) # work) df success_since_flush x =
     (let df1 = df[i := r]
      in if row_had_change then
           (if Suc success_since_flush \<ge> every then
              (case write_back df1 x of
                 (Some e, x1) \<Rightarrow> (Inl e, x1)
               | (None, x1) \<Rightarrow> row_loop every work df1 0 x1)
            else row_loop every work df1 (Suc success_since_flush) x)
         else row_loop every work df1 success_since_flush x)"

definition main_rows ::
  "nat \<Rightarrow> (nat \<times> 'r row_result) list \<Rightarrow> 'r list \<Rightarrow> 'r excel \<Rightarrow> error option \<times> 'r excel" where
  \<comment> \<open>\<open>main\<close> from \<open>success_since_flush = 0\<close> to the final \<open>write_back\<close>\<close>
  "main_rows every work df x =
     (case row_loop every work df 0 x of
        (Inl e, x1) \<Rightarrow> (Some e, x1)
      | (Inr (df1, n), x1) \<Rightarrow> write_back df1 x1)"

section \<open>Observing a run\<close>

definition wiki0 :: world where
  \<comment> \<open>an empty wiki, nothing scripted, nothing done yet\<close>
  "wiki0 = \<lparr>statements = [], captions = [], next_guid = 0, csrf_now = ''csrf0'',
            scripted_gets = [], scripted_posts = [], randoms = [], trace = []\<rparr>"

definition new_events :: "world \<Rightarrow> world \<Rightarrow> event list" where
  \<comment> \<open>what was done between the world \<open>w\<close> and the later world \<open>w'\<close>\<close>
  "new_events w w' = drop (length (trace w)) (trace w')"

fun is_post :: "event \<Rightarrow> bool" where
  "is_post (EPost rq token) = True"
| "is_post _ = False"

fun is_sleep :: "event \<Rightarrow> bool" where
  "is_sleep (ESleep d) = True"
| "is_sleep _ = False"

fun of_mutate :: "post_request \<Rightarrow> event \<Rightarrow> bool" where
  \<comment> \<open>the events a call of \<open>mw_mutate\<close> for the request \<open>rq\<close> can leave\<close>
  "of_mutate rq (EPost rq' token) = (rq' = rq)"
| "of_mutate rq (ESleep d) = True"
| "of_mutate rq (EGet g) = (g = QueryCsrfToken)"

fun is_label_write :: "string \<Rightarrow> event \<Rightarrow> bool" where
  \<comment> \<open>a \<open>wbsetlabel\<close> request for the language\<close>
  "is_label_write lang (EPost (WbSetLabel m l v) token) = (l = lang)"
| "is_label_write lang _ = False"

fun write_bearing :: "'r row_result \<Rightarrow> bool" where
  \<comment> \<open>the row changed something on the wiki\<close>
  "write_bearing (RowDone r row_had_change) = row_had_change"
| "write_bearing (RowRaised e) = False"

fun completed :: "'r row_result \<Rightarrow> bool" where
  "completed (RowDone r row_had_change) = True"
| "completed (RowRaised e) = False"

fun rows_applied :: "(nat \<times> 'r row_result) list \<Rightarrow> 'r list \<Rightarrow> 'r list" where
  \<comment> \<open>\<open>df\<close> once the given rows of \<open>work\<close> have been handled\<close>
  "rows_applied [] df = df"
| "rows_applied ((i, RowDone r row_had_change) # work) df = rows_applied work (df[i := r])"
| "rows_applied ((i, RowRaised e) # work) df = df"

fun upto_change :: "nat \<Rightarrow> (nat \<times> 'r row_result) list \<Rightarrow> (nat \<times> 'r row_result) list" where
  \<comment> \<open>the rows of \<open>work\<close> up to and including the \<open>k\<close>-th write-bearing one\<close>
  "upto_change 0 work = []"
| "upto_change (Suc k) [] = []"
| "upto_change (Suc k) ((i, res) # work) =
     (i, res) # upto_change (if write_bearing res then k else Suc k) work"

definition row0 :: row where
  \<comment> \<open>a row of the sheet with nothing filled in yet\<close>
  "row0 = \<lparr>status_col = Text [], caption_en_status = Text [], caption_nl_status = Text [],
           caption_candidate = []\<rparr>"

definition turn_ok :: "post_request \<Rightarrow> string \<Rightarrow> nat \<Rightarrow> nat \<Rightarrow> world \<Rightarrow> outcome \<times> world \<Rightarrow> bool" where
  "turn_ok rq tok n mr w res =
     (\<exists>evs. trace (snd res) = trace w @ EPost rq tok # evs
        \<and> (evs = [] \<or> (\<exists>d. evs = [ESleep d]) \<or> evs = [EGet QueryCsrfToken])
        \<and> ((\<exists>t. fst res = Continue t) \<longrightarrow> evs \<noteq> [])
        \<and> (evs \<noteq> [] \<longrightarrow> n \<le> mr))"

section \<open>Facts about the request layer\<close>

lemma user_agent_ok: "strip USER_AGENT \<noteq> []"
  by (simp add: USER_AGENT_def strip_def is_space_def)

lemma http_post_trace: "trace (snd (http_post rq token w)) = trace w @ [EPost rq token]"
  by (auto simp: http_post_def serve_post_def Let_def split: list.splits prod.splits post_request.splits)

lemma http_get_trace: "trace (snd (http_get rq w)) = trace w @ [EGet rq]"
  by (auto simp: http_get_def Let_def split: list.splits)

lemma draw_random_trace: "trace (snd (draw_random w)) = trace w"
  by (simp add: draw_random_def split: list.splits)

lemma backoff_trace: "trace (snd (backoff bs n w)) = trace w"
  by (simp add: backoff_def draw_random_trace split: prod.splits)
    (metis draw_random_trace snd_conv)


lemma fetch_csrf_trace:
  "strip ua \<noteq> [] \<Longrightarrow> trace (snd (fetch_csrf ua w)) = trace w @ [EGet QueryCsrfToken]"
  unfolding fetch_csrf_def
  using http_get_trace[of QueryCsrfToken w]
  by (auto simp: Let_def split: prod.splits reply.splits body.splits sum.splits json.splits option.splits if_splits)

lemma time_sleep_trace: "trace (time_sleep d w) = trace w @ [ESleep d]"
  by (simp add: time_sleep_def)

lemma attempt_retryable_status:
  assumes "http_post rq tok w = (Response st ra b, w1)" and "st \<in> RETRYABLE_STATUS"
  shows "mw_attempt ua mr bs rq n tok w =
     (if n \<le> mr
      then (Continue tok,
            time_sleep (case ra of RaSeconds x \<Rightarrow> max x bs | RaOther \<Rightarrow> bs
                        | RaNone \<Rightarrow> fst (backoff bs n w1))
              (case ra of RaNone \<Rightarrow> snd (backoff bs n w1) | _ \<Rightarrow> w1))
      else (Raise (HTTPError st b), case ra of RaNone \<Rightarrow> snd (backoff bs n w1) | _ \<Rightarrow> w1))"
  using assms
  by (simp add: mw_attempt_def on_request_exception_def Let_def split: prod.splits retry_after.splits)

lemma attempt_http_error:
  assumes "http_post rq tok w = (Response st ra b, w1)" and "st \<notin> RETRYABLE_STATUS"
    and "raises_for_status st"
  shows "mw_attempt ua mr bs rq n tok w =
     (if n \<le> mr then (Continue tok, time_sleep (fst (backoff bs n w1)) (snd (backoff bs n w1)))
      else (Raise (HTTPError st b), w1))"
  using assms
  by (simp add: mw_attempt_def on_request_exception_def Let_def split: prod.splits)

lemma attempt_api_error:
  assumes "http_post rq tok w = (Response st ra (Json (JObj kvs)), w1)"
    and "st \<notin> RETRYABLE_STATUS" and "\<not> raises_for_status st"
    and "map_of kvs ''error'' = Some (JObj err)" and "map_of err ''code'' = Some (JStr code)"
  shows "mw_attempt ua mr bs rq n tok w =
     (if lower code \<in> RETRYABLE_API_CODES \<and> n \<le> mr
      then (Continue tok, time_sleep (fst (backoff bs n w1)) (snd (backoff bs n w1)))
      else if lower code \<in> RETRYABLE_AUTH_CODES \<and> n \<le> mr
      then (case fetch_csrf ua w1 of (Inl e, w2) \<Rightarrow> (Raise e, w2) | (Inr t, w2) \<Rightarrow> (Continue t, w2))
      else (Raise (ApiError (action_of rq) (JObj err)), w1))"
  using assms
  by (simp add: mw_attempt_def api_error_code_def Let_def lower_def split: prod.splits)

lemma attempt_success:
  assumes "http_post rq tok w = (Response st ra (Json j), w1)"
    and "st \<notin> RETRYABLE_STATUS" and "\<not> raises_for_status st"
    and "contains_error_key j = Inr False"
  shows "mw_attempt ua mr bs rq n tok w = (Return j tok, w1)"
  using assms by (simp add: mw_attempt_def)

lemma on_request_exception_eq:
  "on_request_exception mr bs n tok e w1 =
     (if n \<le> mr then (Continue tok, time_sleep (fst (backoff bs n w1)) (snd (backoff bs n w1)))
      else (Raise e, w1))"
  by (simp add: on_request_exception_def split: prod.splits)

lemma attempt_no_response:
  assumes "http_post rq tok w = (NoResponse, w1)"
  shows "mw_attempt ua mr bs rq n tok w =
     (if n \<le> mr then (Continue tok, time_sleep (fst (backoff bs n w1)) (snd (backoff bs n w1)))
      else (Raise RequestException, w1))"
  using assms by (simp add: mw_attempt_def on_request_exception_eq)

lemma attempt_json:
  assumes "http_post rq tok w = (Response st ra (Json j), w1)"
    and "st \<notin> RETRYABLE_STATUS" and "\<not> raises_for_status st"
  shows "mw_attempt ua mr bs rq n tok w =
     (case contains_error_key j of
        Inl e \<Rightarrow> (Raise e, w1)
      | Inr False \<Rightarrow> (Return j tok, w1)
      | Inr True \<Rightarrow>
          (case j of
             JObj kvs \<Rightarrow>
               (case api_error_code (case map_of kvs ''error'' of Some v \<Rightarrow> v | None \<Rightarrow> JNull) of
                  Inl e \<Rightarrow> (Raise e, w1)
                | Inr code \<Rightarrow>
                    if code \<in> RETRYABLE_API_CODES \<and> n \<le> mr
                    then (Continue tok, time_sleep (fst (backoff bs n w1)) (snd (backoff bs n w1)))
                    else if code \<in> RETRYABLE_AUTH_CODES \<and> n \<le> mr
                    then (case fetch_csrf ua w1 of (Inl e, w2) \<Rightarrow> (Raise e, w2)
                          | (Inr t, w2) \<Rightarrow> (Continue t, w2))
                    else (Raise (ApiError (action_of rq)
                            (case map_of kvs ''error'' of Some v \<Rightarrow> v | None \<Rightarrow> JNull)), w1))
           | _ \<Rightarrow> (Raise (TypeError ''indices must be integers''), w1)))"
  using assms
  by (simp add: mw_attempt_def Let_def split_beta split: sum.splits bool.splits json.splits)

lemma attempt_not_json:
  assumes "http_post rq tok w = (Response st ra NotJson, w1)"
    and "st \<notin> RETRYABLE_STATUS" and "\<not> raises_for_status st"
  shows "mw_attempt ua mr bs rq n tok w =
     (if n \<le> mr then (Continue tok, time_sleep (fst (backoff bs n w1)) (snd (backoff bs n w1)))
      else (Raise JSONDecodeError, w1))"
  using assms by (simp add: mw_attempt_def on_request_exception_eq)

lemma turn_ok_plain:
  "trace w1 = trace w @ [EPost rq tok] \<Longrightarrow> \<forall>t. x \<noteq> Continue t \<Longrightarrow> turn_ok rq tok n mr w (x, w1)"
  by (simp add: turn_ok_def)

lemma turn_ok_sleep:
  "trace w2 = trace w @ [EPost rq tok] \<Longrightarrow> n \<le> mr \<Longrightarrow> turn_ok rq tok n mr w (x, time_sleep d w2)"
  by (simp add: turn_ok_def time_sleep_def)

lemma turn_ok_backoff:
  assumes "trace w1 = trace w @ [EPost rq tok]"
  shows "turn_ok rq tok n mr w
     (if n \<le> mr then (Continue tok, time_sleep (fst (backoff bs n w1)) (snd (backoff bs n w1)))
      else (Raise e, w1))"
  using assms by (simp add: turn_ok_plain turn_ok_sleep backoff_trace)

lemma turn_ok_fetch:
  assumes "trace w1 = trace w @ [EPost rq tok]" and "strip ua \<noteq> []" and "n \<le> mr"
  shows "turn_ok rq tok n mr w
     (case fetch_csrf ua w1 of (Inl e, w2) \<Rightarrow> (Raise e, w2) | (Inr t, w2) \<Rightarrow> (Continue t, w2))"
proof -
  obtain x w2 where f: "fetch_csrf ua w1 = (x, w2)" by (cases "fetch_csrf ua w1")
  have "trace w2 = trace w @ [EPost rq tok, EGet QueryCsrfToken]"
    using fetch_csrf_trace[OF assms(2), of w1] f assms(1) by simp
  then show ?thesis using f assms(3) by (cases x) (simp_all add: turn_ok_def)
qed

lemma attempt_trace:
  assumes ua: "strip ua \<noteq> []"
  shows "turn_ok rq tok n mr w (mw_attempt ua mr bs rq n tok w)"
proof -
  obtain r w1 where h: "http_post rq tok w = (r, w1)" by (cases "http_post rq tok w")
  have t1: "trace w1 = trace w @ [EPost rq tok]" using http_post_trace[of rq tok w] h by simp
  show ?thesis
  proof (cases r)
    case NoResponse
    then show ?thesis using attempt_no_response[of rq tok w w1] h turn_ok_backoff[OF t1] by simp
  next
    case (Response st ra b)
    show ?thesis
    proof (cases "st \<in> RETRYABLE_STATUS")
      case True
      have "mw_attempt ua mr bs rq n tok w =
        (if n \<le> mr
         then (Continue tok,
            time_sleep (case ra of RaSeconds x \<Rightarrow> max x bs | RaOther \<Rightarrow> bs
                        | RaNone \<Rightarrow> fst (backoff bs n w1))
              (case ra of RaNone \<Rightarrow> snd (backoff bs n w1) | _ \<Rightarrow> w1))
         else (Raise (HTTPError st b), case ra of RaNone \<Rightarrow> snd (backoff bs n w1) | _ \<Rightarrow> w1))"
        using attempt_retryable_status[of rq tok w st ra b w1] h Response True by simp
      moreover have "trace (case ra of RaNone \<Rightarrow> snd (backoff bs n w1) | _ \<Rightarrow> w1) = trace w @ [EPost rq tok]"
        using t1 by (cases ra) (simp_all add: backoff_trace)
      ultimately show ?thesis by (simp add: turn_ok_plain turn_ok_sleep)
    next
      case False
      show ?thesis
      proof (cases "raises_for_status st")
        case True
        then show ?thesis
          using attempt_http_error[of rq tok w st ra b w1] h Response False turn_ok_backoff[OF t1] by simp
      next
        case nr: False
        show ?thesis
        proof (cases b)
          case NotJson
          then show ?thesis
            using attempt_not_json[of rq tok w st ra w1] h Response False nr turn_ok_backoff[OF t1] by simp
        next
          case (Json j)
          have eq: "mw_attempt ua mr bs rq n tok w =
     (case contains_error_key j of
        Inl e \<Rightarrow> (Raise e, w1)
      | Inr False \<Rightarrow> (Return j tok, w1)
      | Inr True \<Rightarrow>
          (case j of
             JObj kvs \<Rightarrow>
               (case api_error_code (case map_of kvs ''error'' of Some v \<Rightarrow> v | None \<Rightarrow> JNull) of
                  Inl e \<Rightarrow> (Raise e, w1)
                | Inr code \<Rightarrow>
                    if code \<in> RETRYABLE_API_CODES \<and> n \<le> mr
                    then (Continue tok, time_sleep (fst (backoff bs n w1)) (snd (backoff bs n w1)))
                    else if code \<in> RETRYABLE_AUTH_CODES \<and> n \<le> mr
                    then (case fetch_csrf ua w1 of (Inl e, w2) \<Rightarrow> (Raise e, w2)
                          | (Inr t, w2) \<Rightarrow> (Continue t, w2))
                    else (Raise (ApiError (action_of rq)
                            (case map_of kvs ''error'' of Some v \<Rightarrow> v | None \<Rightarrow> JNull)), w1))
           | _ \<Rightarrow> (Raise (TypeError ''indices must be integers''), w1)))"
            using attempt_json[of rq tok w st ra j w1] h Response False nr Json by simp
          show ?thesis unfolding eq
            using turn_ok_fetch[OF t1 ua, of n mr] 
            by (auto simp: turn_ok_plain turn_ok_sleep backoff_trace t1
                split: sum.splits bool.splits json.splits)
        qed
      qed
    qed
  qed
qed


declare mw_mutate_loop.simps [simp del]

lemma loop_trace:
  "strip ua \<noteq> [] \<Longrightarrow> a \<le> mr \<Longrightarrow>
    \<exists>evs. trace (snd (mw_mutate_loop ua mr bs rq a tok w)) = trace w @ evs
       \<and> list_all (of_mutate rq) evs
       \<and> length (filter is_post evs) \<le> Suc mr - a
       \<and> length (filter (\<lambda>e. \<not> is_post e) evs) \<le> mr - a"
proof (induction ua mr bs rq a tok w rule: mw_mutate_loop.induct)
  case (1 ua mr bs rq a tok w)
  obtain x w' where att: "mw_attempt ua mr bs rq (Suc a) tok w = (x, w')"
    by (cases "mw_attempt ua mr bs rq (Suc a) tok w")
  have "turn_ok rq tok (Suc a) mr w (x, w')"
    using attempt_trace[OF "1.prems"(1), of rq tok "Suc a" mr w bs] att by simp
  then obtain evs0 where tr: "trace w' = trace w @ EPost rq tok # evs0"
    and shape: "evs0 = [] \<or> (\<exists>d. evs0 = [ESleep d]) \<or> evs0 = [EGet QueryCsrfToken]"
    and cont: "(\<exists>t. x = Continue t) \<longrightarrow> evs0 \<noteq> []"
    and cap: "evs0 \<noteq> [] \<longrightarrow> Suc a \<le> mr"
    by (auto simp: turn_ok_def)
  have all0: "list_all (of_mutate rq) (EPost rq tok # evs0)" using shape by auto
  have posts0: "length (filter is_post (EPost rq tok # evs0)) = 1" using shape by auto
  have rest0: "length (filter (\<lambda>e. \<not> is_post e) (EPost rq tok # evs0)) \<le> (if evs0 = [] then 0 else 1)"
    using shape by auto
  show ?case
  proof (cases x)
    case (Continue t)
    then have le: "Suc a \<le> mr" using cont cap by simp
    from "1.IH"[OF att[symmetric] Continue "1.prems"(1) le]
    obtain evs1 where tr1: "trace (snd (mw_mutate_loop ua mr bs rq (Suc a) t w')) = trace w' @ evs1"
      and all1: "list_all (of_mutate rq) evs1"
      and posts1: "length (filter is_post evs1) \<le> Suc mr - Suc a"
      and rest1: "length (filter (\<lambda>e. \<not> is_post e) evs1) \<le> mr - Suc a"
      by blast
    have eq: "mw_mutate_loop ua mr bs rq a tok w = mw_mutate_loop ua mr bs rq (Suc a) t w'"
      by (subst mw_mutate_loop.simps) (simp add: att Continue)
    show ?thesis
      apply (rule exI[of _ "(EPost rq tok # evs0) @ evs1"])
      using eq tr1 tr all0 all1 posts0 posts1 rest0 rest1 le
      by (auto simp: split: if_splits)
  next
    case (Return j t)
    have eq: "mw_mutate_loop ua mr bs rq a tok w = (Inr (j, t), w')"
      by (subst mw_mutate_loop.simps) (simp add: att Return)
    show ?thesis
      apply (rule exI[of _ "EPost rq tok # evs0"])
      using eq tr all0 posts0 rest0 cap "1.prems"(2)
      by (auto split: if_splits)
  next
    case (Raise e)
    have eq: "mw_mutate_loop ua mr bs rq a tok w = (Inl e, w')"
      by (subst mw_mutate_loop.simps) (simp add: att Raise)
    show ?thesis
      apply (rule exI[of _ "EPost rq tok # evs0"])
      using eq tr all0 posts0 rest0 cap "1.prems"(2)
      by (auto split: if_splits)
  qed
qed

lemma mw_mutate_trace:
  "\<exists>evs. trace (snd (mw_mutate ua mr bs rq tok w)) = trace w @ evs
       \<and> list_all (of_mutate rq) evs
       \<and> length (filter is_post evs) \<le> Suc mr
       \<and> length (filter (\<lambda>e. \<not> is_post e) evs) \<le> mr"
proof (cases "tok = [] \<or> strip ua = [] \<or> bs \<le> 0")
  case True
  then have "snd (mw_mutate ua mr bs rq tok w) = w" by (auto simp: mw_mutate_def)
  then show ?thesis by simp
next
  case False
  then have "mw_mutate ua mr bs rq tok w = mw_mutate_loop ua mr bs rq 0 tok w"
    by (auto simp: mw_mutate_def)
  then show ?thesis using loop_trace[of ua 0 mr bs rq tok w] False by simp
qed

section \<open>The mutator\<close>

lemma loop_unfold:
  "mw_attempt ua mr bs rq (Suc a) tok w = (x, w') \<Longrightarrow>
   mw_mutate_loop ua mr bs rq a tok w =
     (case x of Continue t \<Rightarrow> mw_mutate_loop ua mr bs rq (Suc a) t w'
      | Return j t \<Rightarrow> (Inr (j, t), w') | Raise e \<Rightarrow> (Inl e, w'))"
  by (subst mw_mutate_loop.simps) simp

lemma mw_mutate_valid:
  "tok \<noteq> [] \<Longrightarrow> strip ua \<noteq> [] \<Longrightarrow> 0 < bs \<Longrightarrow>
   mw_mutate ua mr bs rq tok w = mw_mutate_loop ua mr bs rq 0 tok w"
  by (simp add: mw_mutate_def)

lemma status_2xx: "200 \<le> st \<Longrightarrow> st < 300 \<Longrightarrow> st \<notin> RETRYABLE_STATUS \<and> \<not> raises_for_status st"
  by (auto simp: RETRYABLE_STATUS_def raises_for_status_def)

text \<open>
  C4, as amended. When the first reply to a call of \<open>mw_mutate\<close> is a 2xx JSON object
  whose \<open>error\<close> carries a code that, once lower-cased, lies outside both
  \<open>RETRYABLE_API_CODES\<close> and \<open>RETRYABLE_AUTH_CODES\<close>, the call raises at once with the
  error payload: one request, no sleep, no retry.
\<close>

theorem mw_mutate_other_api_error_raises:
  assumes "tok \<noteq> []" and "strip ua \<noteq> []" and "0 < bs"
    and "http_post rq tok w = (Response st ra (Json (JObj kvs)), w1)"
    and "200 \<le> st" and "st < 300"
    and "map_of kvs ''error'' = Some (JObj err)" and "map_of err ''code'' = Some (JStr code)"
    and "lower code \<notin> RETRYABLE_API_CODES" and "lower code \<notin> RETRYABLE_AUTH_CODES"
  shows "mw_mutate ua mr bs rq tok w = (Inl (ApiError (action_of rq) (JObj err)), w1)
         \<and> trace w1 = trace w @ [EPost rq tok]"
proof -
  have st: "st \<notin> RETRYABLE_STATUS" "\<not> raises_for_status st"
    using status_2xx assms(5,6) by auto
  have "mw_attempt ua mr bs rq (Suc 0) tok w = (Raise (ApiError (action_of rq) (JObj err)), w1)"
    using attempt_api_error[OF assms(4) st assms(7,8)] assms(9,10) by simp
  then have "mw_mutate_loop ua mr bs rq 0 tok w = (Inl (ApiError (action_of rq) (JObj err)), w1)"
    by (simp add: loop_unfold)
  moreover have "trace w1 = trace w @ [EPost rq tok]"
    using http_post_trace[of rq tok w] assms(4) by simp
  ultimately show ?thesis using mw_mutate_valid[OF assms(1-3)] by simp
qed

theorem mw_mutate_other_api_error_raises_witness:
  "mw_mutate USER_AGENT 4 1 (WbSetLabel ''M1'' ''en'' ''x'') ''tok''
     (wiki0\<lparr>scripted_posts :=
        [Response 200 RaNone (Json (JObj [(''error'', JObj [(''code'', JStr ''permissiondenied'')])]))]\<rparr>)
   = (Inl (ApiError ''wbsetlabel'' (JObj [(''code'', JStr ''permissiondenied'')])),
      wiki0\<lparr>trace := [EPost (WbSetLabel ''M1'' ''en'' ''x'') ''tok''], scripted_posts := []\<rparr>)"
  using mw_mutate_other_api_error_raises[of "''tok''" USER_AGENT 1 "WbSetLabel ''M1'' ''en'' ''x''"
      "wiki0\<lparr>scripted_posts :=
        [Response 200 RaNone (Json (JObj [(''error'', JObj [(''code'', JStr ''permissiondenied'')])]))]\<rparr>"
      200 RaNone "[(''error'', JObj [(''code'', JStr ''permissiondenied'')])]"
      "wiki0\<lparr>trace := [EPost (WbSetLabel ''M1'' ''en'' ''x'') ''tok''], scripted_posts := []\<rparr>"
      "[(''code'', JStr ''permissiondenied'')]" "''permissiondenied''" 4]
  by (simp add: user_agent_ok http_post_def wiki0_def Let_def lower_def lower_chr_def
        RETRYABLE_API_CODES_def RETRYABLE_AUTH_CODES_def)

text \<open>
  The claim C4 as stated fails: the code \<open>MaxLag\<close> is in neither set, yet \<open>mw_mutate\<close>
  lower-cases it, sleeps and posts again.
\<close>

theorem mw_mutate_mixed_case_code_counterexample:
  "''MaxLag'' \<notin> RETRYABLE_API_CODES \<and> ''MaxLag'' \<notin> RETRYABLE_AUTH_CODES
   \<and> mw_mutate USER_AGENT 4 1 (WbSetLabel ''M1'' ''en'' ''x'') ''tok''
       (wiki0\<lparr>scripted_posts :=
          [Response 200 RaNone (Json (JObj [(''error'', JObj [(''code'', JStr ''MaxLag'')])]))]\<rparr>)
     = (Inr (JObj [(''success'', JInt 1)], ''tok''),
        wiki0\<lparr>captions := [(''M1'', ''en'', ''x'')],
              trace := [EPost (WbSetLabel ''M1'' ''en'' ''x'') ''tok'', ESleep (4/5),
                        EPost (WbSetLabel ''M1'' ''en'' ''x'') ''tok'']\<rparr>)"
proof -
  have l: "lower ''MaxLag'' = ''maxlag''" by code_simp
  show ?thesis
  by (simp add: mw_mutate_def user_agent_ok mw_mutate_loop.simps mw_attempt_def http_post_def
        serve_post_def wiki0_def Let_def l api_error_code_def
        RETRYABLE_STATUS_def raises_for_status_def backoff_def draw_random_def time_sleep_def
        RETRYABLE_API_CODES_def RETRYABLE_AUTH_CODES_def)
qed









lemma auth_not_api: "c \<in> RETRYABLE_AUTH_CODES \<Longrightarrow> c \<notin> RETRYABLE_API_CODES"
  by (auto simp: RETRYABLE_AUTH_CODES_def RETRYABLE_API_CODES_def)

lemma refreshes_le:
  "length (filter (\<lambda>e. e = EGet QueryCsrfToken) evs) \<le> length (filter (\<lambda>e. \<not> is_post e) evs)"
  by (induction evs) auto

text \<open>
  C3. An attempt answered with an \<open>error\<close> whose code is one of
  \<open>RETRYABLE_AUTH_CODES\<close> makes, while attempts remain, exactly one call of
  \<open>fetch_csrf\<close> and no sleep, and the next attempt follows at once with the token
  fetched (a failing \<open>fetch_csrf\<close> ends the call); after the cap the error is raised.
  A whole run makes at most \<open>max_retries + 1\<close> requests and at most \<open>max_retries\<close>
  refreshes.
\<close>

theorem mw_mutate_auth_refresh:
  assumes "strip ua \<noteq> []"
    and "http_post rq tok w = (Response st ra (Json (JObj kvs)), w1)"
    and "st \<notin> RETRYABLE_STATUS" and "\<not> raises_for_status st"
    and "map_of kvs ''error'' = Some (JObj err)" and "map_of err ''code'' = Some (JStr code)"
    and "lower code \<in> RETRYABLE_AUTH_CODES"
  shows "mw_mutate_loop ua mr bs rq a tok w =
           (if a < mr
            then (case fetch_csrf ua w1 of
                    (Inl e, w2) \<Rightarrow> (Inl e, w2)
                  | (Inr token, w2) \<Rightarrow> mw_mutate_loop ua mr bs rq (Suc a) token w2)
            else (Inl (ApiError (action_of rq) (JObj err)), w1))
         \<and> new_events w (snd (fetch_csrf ua w1)) = [EPost rq tok, EGet QueryCsrfToken]
         \<and> (a \<le> mr \<longrightarrow>
              length (filter is_post (new_events w (snd (mw_mutate_loop ua mr bs rq a tok w))))
                \<le> Suc mr - a
              \<and> length (filter (\<lambda>e. e = EGet QueryCsrfToken)
                          (new_events w (snd (mw_mutate_loop ua mr bs rq a tok w)))) \<le> mr - a)"
proof -
  have t1: "trace w1 = trace w @ [EPost rq tok]"
    using http_post_trace[of rq tok w] assms(2) by simp
  have ft: "trace (snd (fetch_csrf ua w1)) = trace w @ [EPost rq tok, EGet QueryCsrfToken]"
    using fetch_csrf_trace[OF assms(1), of w1] t1 by simp
  have att: "mw_attempt ua mr bs rq (Suc a) tok w =
     (if Suc a \<le> mr
      then (case fetch_csrf ua w1 of (Inl e, w2) \<Rightarrow> (Raise e, w2) | (Inr t, w2) \<Rightarrow> (Continue t, w2))
      else (Raise (ApiError (action_of rq) (JObj err)), w1))"
    using attempt_api_error[OF assms(2-6), of ua mr bs "Suc a"] assms(7) auth_not_api by simp
  have A: "mw_mutate_loop ua mr bs rq a tok w =
           (if a < mr
            then (case fetch_csrf ua w1 of
                    (Inl e, w2) \<Rightarrow> (Inl e, w2)
                  | (Inr token, w2) \<Rightarrow> mw_mutate_loop ua mr bs rq (Suc a) token w2)
            else (Inl (ApiError (action_of rq) (JObj err)), w1))"
    by (subst mw_mutate_loop.simps) (simp add: att split: prod.splits sum.splits)
  have B: "new_events w (snd (fetch_csrf ua w1)) = [EPost rq tok, EGet QueryCsrfToken]"
    using ft by (simp add: new_events_def)
  have C: "a \<le> mr \<longrightarrow>
              length (filter is_post (new_events w (snd (mw_mutate_loop ua mr bs rq a tok w))))
                \<le> Suc mr - a
              \<and> length (filter (\<lambda>e. e = EGet QueryCsrfToken)
                          (new_events w (snd (mw_mutate_loop ua mr bs rq a tok w)))) \<le> mr - a"
  proof
    assume le: "a \<le> mr"
    obtain evs where tr: "trace (snd (mw_mutate_loop ua mr bs rq a tok w)) = trace w @ evs"
      and posts: "length (filter is_post evs) \<le> Suc mr - a"
      and rest: "length (filter (\<lambda>e. \<not> is_post e) evs) \<le> mr - a"
      using loop_trace[OF assms(1) le, of bs rq tok w] by blast
    have ne: "new_events w (snd (mw_mutate_loop ua mr bs rq a tok w)) = evs"
      using tr by (simp add: new_events_def)
    show "length (filter is_post (new_events w (snd (mw_mutate_loop ua mr bs rq a tok w))))
                \<le> Suc mr - a
              \<and> length (filter (\<lambda>e. e = EGet QueryCsrfToken)
                          (new_events w (snd (mw_mutate_loop ua mr bs rq a tok w)))) \<le> mr - a"
      using ne posts rest refreshes_le[of evs] by auto
  qed
  show ?thesis using A B C by blast
qed

theorem mw_mutate_auth_refresh_witness:
  "mw_mutate USER_AGENT 4 1 (WbSetLabel ''M1'' ''en'' ''x'') ''tok''
     (wiki0\<lparr>scripted_posts :=
        [Response 200 RaNone (Json (JObj [(''error'', JObj [(''code'', JStr ''badtoken'')])]))]\<rparr>)
   = (Inr (JObj [(''success'', JInt 1)], ''csrf0''),
      wiki0\<lparr>captions := [(''M1'', ''en'', ''x'')],
            trace := [EPost (WbSetLabel ''M1'' ''en'' ''x'') ''tok'', EGet QueryCsrfToken,
                      EPost (WbSetLabel ''M1'' ''en'' ''x'') ''csrf0'']\<rparr>)"
proof -
  let ?rq = "WbSetLabel ''M1'' ''en'' ''x''"
  let ?kvs = "[(''error'', JObj [(''code'', JStr ''badtoken'')])]"
  let ?w = "wiki0\<lparr>scripted_posts := [Response 200 RaNone (Json (JObj ?kvs))]\<rparr>"
  let ?w1 = "wiki0\<lparr>scripted_posts := [], trace := [EPost ?rq ''tok'']\<rparr>"
  have p1: "http_post ?rq ''tok'' ?w = (Response 200 RaNone (Json (JObj ?kvs)), ?w1)"
    by (simp add: http_post_def wiki0_def Let_def)
  have l: "lower ''badtoken'' \<in> RETRYABLE_AUTH_CODES"
    by (simp add: lower_def lower_chr_def RETRYABLE_AUTH_CODES_def)
  have st: "200 \<notin> RETRYABLE_STATUS" "\<not> raises_for_status 200"
    by (simp_all add: RETRYABLE_STATUS_def raises_for_status_def)
  have f: "fetch_csrf USER_AGENT ?w1 =
      (Inr ''csrf0'', wiki0\<lparr>scripted_posts := [], trace := [EPost ?rq ''tok'', EGet QueryCsrfToken]\<rparr>)"
  proof -
    have ne: "strip ''csrf0'' \<noteq> []" by (simp add: strip_def is_space_def)
    show ?thesis
      by (simp add: fetch_csrf_def user_agent_ok http_get_def serve_get_def wiki0_def Let_def
          raises_for_status_def ne)
  qed
  have s2: "mw_mutate_loop USER_AGENT 4 1 ?rq (Suc 0) ''csrf0''
      (wiki0\<lparr>scripted_posts := [], trace := [EPost ?rq ''tok'', EGet QueryCsrfToken]\<rparr>)
    = (Inr (JObj [(''success'', JInt 1)], ''csrf0''),
      wiki0\<lparr>captions := [(''M1'', ''en'', ''x'')],
            trace := [EPost ?rq ''tok'', EGet QueryCsrfToken, EPost ?rq ''csrf0'']\<rparr>)"
    by (subst mw_mutate_loop.simps)
       (simp add: mw_attempt_def http_post_def serve_post_def wiki0_def Let_def
          RETRYABLE_STATUS_def raises_for_status_def)
  note t = mw_mutate_auth_refresh[OF user_agent_ok p1 st _ _ l, where err = "[(''code'', JStr ''badtoken'')]"
      and mr = 4 and bs = 1 and a = 0]
  show ?thesis using t f s2 by (simp add: mw_mutate_def user_agent_ok wiki0_def)
qed

section \<open>Reads of an entity without structured data\<close>

text \<open>
  C8. When the read is answered by an HTTP error whose JSON body carries the error code
  \<open>no-such-entity\<close>, \<open>get_p7482_claims\<close> returns the empty list and
  \<open>get_existing_labels\<close>, which makes its read only for an identifier of the form
  \<open>M<digits>\<close>, the empty map; neither raises.
\<close>

theorem no_such_entity_reads_empty:
  assumes "scripted_gets w = Response st ra (Json (JObj kvs)) # rest"
    and "raises_for_status st"
    and "map_of kvs ''error'' = Some (JObj err)"
    and "map_of err ''code'' = Some (JStr ''no-such-entity'')"
  shows "fst (get_p7482_claims mid w) = Inr []
         \<and> (is_mid (strip mid) \<longrightarrow> fst (get_existing_labels mid w) = Inr [])"
proof -
  have nse: "no_such_entity (Json (JObj kvs))"
    using assms(3,4) by (auto simp: no_such_entity_def)
  have rq: "\<And>g. fst (mw_request g w) = Inl (HTTPError st (Json (JObj kvs)))"
    using assms(1,2) by (simp add: mw_request_def http_get_def Let_def)
  have "fst (get_p7482_claims mid w) = Inr []"
  proof (cases "is_mid (strip mid)")
    case True
    obtain x w1 where m: "mw_request (WbGetClaims mid P_SOURCE_OF_FILE) w = (x, w1)"
      by (cases "mw_request (WbGetClaims mid P_SOURCE_OF_FILE) w")
    then have "x = Inl (HTTPError st (Json (JObj kvs)))" using rq[of "WbGetClaims mid P_SOURCE_OF_FILE"] by simp
    then show ?thesis using True m nse by (simp add: get_p7482_claims_def)
  next
    case False
    then show ?thesis by (simp add: get_p7482_claims_def)
  qed
  moreover have "is_mid (strip mid) \<longrightarrow> fst (get_existing_labels mid w) = Inr []"
  proof
    assume v: "is_mid (strip mid)"
    then have ne: "strip mid \<noteq> []" by (auto simp: is_mid_def)
    obtain x w1 where m: "mw_request (WbGetEntities (CHR ''M'' # tl (strip mid))) w = (x, w1)"
      by (cases "mw_request (WbGetEntities (CHR ''M'' # tl (strip mid))) w")
    then have "x = Inl (HTTPError st (Json (JObj kvs)))"
      using rq[of "WbGetEntities (CHR ''M'' # tl (strip mid))"] by simp
    then show "fst (get_existing_labels mid w) = Inr []"
      using v ne m nse by (simp add: get_existing_labels_def Let_def)
  qed
  ultimately show ?thesis by simp
qed

theorem no_such_entity_reads_empty_witness:
  "fst (get_p7482_claims ''M42''
     (wiki0\<lparr>scripted_gets :=
        [Response 404 RaNone (Json (JObj [(''error'', JObj [(''code'', JStr ''no-such-entity'')])]))]\<rparr>)) = Inr []
   \<and> fst (get_existing_labels ''M42''
     (wiki0\<lparr>scripted_gets :=
        [Response 404 RaNone (Json (JObj [(''error'', JObj [(''code'', JStr ''no-such-entity'')])]))]\<rparr>)) = Inr []"
proof -
  have v: "is_mid (strip ''M42'')" by (simp add: is_mid_def strip_def is_space_def is_digit_def)
  show ?thesis
    using v no_such_entity_reads_empty[of
      "wiki0\<lparr>scripted_gets :=
        [Response 404 RaNone (Json (JObj [(''error'', JObj [(''code'', JStr ''no-such-entity'')])]))]\<rparr>"
      404 RaNone "[(''error'', JObj [(''code'', JStr ''no-such-entity'')])]" "[]"
      "[(''code'', JStr ''no-such-entity'')]" "''M42''"]
    by (simp add: raises_for_status_def)
qed

section \<open>The checkpoint counter\<close>

lemma write_back_ok:
  "write_faults x = [] \<Longrightarrow> write_back df x = (None, x\<lparr>saved := saved x @ [df]\<rparr>)"
  by (simp add: write_back_def)

lemma rows_applied_length: "length (rows_applied work df) = length df"
  by (induction work df rule: rows_applied.induct) simp_all

lemma row_loop_below:
  "list_all (\<lambda>(i, res). completed res) work \<Longrightarrow>
   c + length (filter (\<lambda>(i, res). write_bearing res) work) < every \<Longrightarrow>
   row_loop every work df c x =
     (Inr (rows_applied work df, c + length (filter (\<lambda>(i, res). write_bearing res) work)), x)"
proof (induction work arbitrary: df c)
  case Nil
  then show ?case by simp
next
  case (Cons a work)
  obtain i res where a: "a = (i, res)" by (cases a)
  with Cons.prems obtain r ch where res: "res = RowDone r ch" by (cases res) auto
  show ?case
  proof (cases ch)
    case True
    then have "Suc c + length (filter (\<lambda>(i, res). write_bearing res) work) < every"
      using Cons.prems a res by simp
    then show ?thesis using Cons.IH[of "Suc c" "df[i := r]"] Cons.prems a res True by (simp add: Let_def)
  next
    case False
    then show ?thesis using Cons.IH[of c "df[i := r]"] Cons.prems a res by (simp add: Let_def)
  qed
qed

lemma row_loop_flush:
  "list_all (\<lambda>(i, res). completed res) work \<Longrightarrow> write_faults x = [] \<Longrightarrow> c < every \<Longrightarrow>
   every \<le> c + length (filter (\<lambda>(i, res). write_bearing res) work) \<Longrightarrow>
   row_loop every work df c x =
     row_loop every (drop (length (upto_change (every - c) work)) work)
       (rows_applied (upto_change (every - c) work) df) 0
       (x\<lparr>saved := saved x @ [rows_applied (upto_change (every - c) work) df]\<rparr>)"
proof (induction work arbitrary: df c)
  case Nil
  then show ?case by simp
next
  case (Cons a work)
  obtain i res where a: "a = (i, res)" by (cases a)
  with Cons.prems obtain r ch where res: "res = RowDone r ch" by (cases res) auto
  obtain k where k: "every - c = Suc k" using Cons.prems(3) by (cases "every - c") auto
  show ?case
  proof (cases ch)
    case True
    show ?thesis
    proof (cases "every \<le> Suc c")
      case t: True
      then have "k = 0" using k by simp
      then show ?thesis
        using Cons.prems a res True t k by (simp add: write_back_ok Let_def)
    next
      case False
      then have "every - Suc c = k" "Suc c < every" using k by simp_all
      then show ?thesis
        using Cons.IH[of "Suc c" "df[i := r]"] Cons.prems a res True False k by (simp add: Let_def)
    qed
  next
    case False
    then show ?thesis using Cons.IH[of c "df[i := r]"] Cons.prems a res k by (simp add: Let_def)
  qed
qed

lemma upto_change_prefix: "take (length (upto_change k work)) work = upto_change k work"
  by (induction k work rule: upto_change.induct) simp_all

lemma upto_change_changes:
  "k \<le> length (filter (\<lambda>(i, res). write_bearing res) work) \<Longrightarrow>
   length (filter (\<lambda>(i, res). write_bearing res) (upto_change k work)) = k"
  by (induction k work rule: upto_change.induct) (auto split: if_splits)

lemma changes_after:
  "k \<le> length (filter (\<lambda>(i, res). write_bearing res) work) \<Longrightarrow>
   length (filter (\<lambda>(i, res). write_bearing res) (drop (length (upto_change k work)) work))
     = length (filter (\<lambda>(i, res). write_bearing res) work) - k"
proof -
  assume h: "k \<le> length (filter (\<lambda>(i, res). write_bearing res) work)"
  have "work = upto_change k work @ drop (length (upto_change k work)) work"
    using upto_change_prefix[of k work] append_take_drop_id[of "length (upto_change k work)" work] by simp
  then have "length (filter (\<lambda>(i, res). write_bearing res) work)
      = length (filter (\<lambda>(i, res). write_bearing res) (upto_change k work))
        + length (filter (\<lambda>(i, res). write_bearing res) (drop (length (upto_change k work)) work))"
    by (metis filter_append length_append)
  then show ?thesis using upto_change_changes[OF h] by simp
qed

lemma upto_change_add:
  "upto_change k work @ upto_change m (drop (length (upto_change k work)) work)
     = upto_change (k + m) work"
  if "k \<le> length (filter (\<lambda>(i, res). write_bearing res) work)"
  using that
  by (induction k work rule: upto_change.induct) (auto split: if_splits)

lemma rows_applied_append:
  "list_all (\<lambda>(i, res). completed res) a \<Longrightarrow>
   rows_applied (a @ b) df = rows_applied b (rows_applied a df)"
  by (induction a df rule: rows_applied.induct) simp_all

lemma completed_drop:
  "list_all (\<lambda>(i, res). completed res) work \<Longrightarrow> list_all (\<lambda>(i, res). completed res) (drop n work)"
  by (simp add: list_all_iff) (meson in_set_dropD)

lemma completed_upto:
  "list_all (\<lambda>(i, res). completed res) work \<Longrightarrow> list_all (\<lambda>(i, res). completed res) (upto_change k work)"
  by (metis upto_change_prefix list_all_iff in_set_takeD)


text \<open>
  C7. With a threshold of 3 and rows of which exactly 7 are write-bearing, all rows
  completing and the workbook writable, the row loop calls \<open>write_back\<close> twice, after
  the 3rd and after the 6th write-bearing row, each time with the whole of \<open>df\<close> as
  it then stands, and ends with the counter at 1; \<open>main\<close> then writes once more, the
  final \<open>df\<close>: three writes in all.
\<close>

theorem checkpoint_three_of_seven:
  assumes "list_all (\<lambda>(i, res). completed res) work"
    and "length (filter (\<lambda>(i, res). write_bearing res) work) = 7"
    and "write_faults x = []"
  shows "row_loop 3 work df 0 x =
           (Inr (rows_applied work df, 1),
            x\<lparr>saved := saved x @ [rows_applied (upto_change 3 work) df,
                                  rows_applied (upto_change 6 work) df]\<rparr>)
         \<and> main_rows 3 work df x =
           (None, x\<lparr>saved := saved x @ [rows_applied (upto_change 3 work) df,
                                        rows_applied (upto_change 6 work) df,
                                        rows_applied work df]\<rparr>)
         \<and> length (rows_applied (upto_change 3 work) df) = length df
         \<and> length (rows_applied (upto_change 6 work) df) = length df
         \<and> length (rows_applied work df) = length df"
proof -
  let ?wb = "\<lambda>(i, res). write_bearing (res :: 'a row_result)"
  let ?u1 = "upto_change 3 work"
  let ?work1 = "drop (length ?u1) work"
  let ?df1 = "rows_applied ?u1 df"
  let ?x1 = "x\<lparr>saved := saved x @ [?df1]\<rparr>"
  let ?u2 = "upto_change 3 ?work1"
  let ?work2 = "drop (length ?u2) ?work1"
  let ?df2 = "rows_applied ?u2 ?df1"
  let ?x2 = "?x1\<lparr>saved := saved ?x1 @ [?df2]\<rparr>"
  have c1: "list_all (\<lambda>(i, res). completed res) ?work1" using assms(1) by (rule completed_drop)
  have c2: "list_all (\<lambda>(i, res). completed res) ?work2" using c1 by (rule completed_drop)
  have n1: "length (filter ?wb ?work1) = 4"
    using changes_after[of 3 work] assms(2) by simp
  have n2: "length (filter ?wb ?work2) = 1"
    using changes_after[of 3 ?work1] n1 by simp
  have s1: "row_loop 3 work df 0 x = row_loop 3 ?work1 ?df1 0 ?x1"
    using row_loop_flush[OF assms(1,3), of 0 3 df] assms(2) by simp
  have s2: "row_loop 3 ?work1 ?df1 0 ?x1 = row_loop 3 ?work2 ?df2 0 ?x2"
    using row_loop_flush[OF c1, of ?x1 0 3 ?df1] assms(3) n1 by simp
  have s3: "row_loop 3 ?work2 ?df2 0 ?x2 = (Inr (rows_applied ?work2 ?df2, 1), ?x2)"
    using row_loop_below[OF c2, of 0 3 ?df2 ?x2] n2 by simp
  have u6: "?u1 @ ?u2 = upto_change 6 work"
    using upto_change_add[of 3 work 3] assms(2) by simp
  have d2: "?df2 = rows_applied (upto_change 6 work) df"
    using rows_applied_append[OF completed_upto[OF assms(1)], of 3 ?u2 df] u6 by simp
  have w1: "work = ?u1 @ ?work1"
    using upto_change_prefix[of 3 work] append_take_drop_id[of "length ?u1" work] by simp
  have w2: "?work1 = ?u2 @ ?work2"
    using upto_change_prefix[of 3 ?work1] append_take_drop_id[of "length ?u2" ?work1] by simp
  have "rows_applied work df = rows_applied ?work1 ?df1"
    using rows_applied_append[OF completed_upto[OF assms(1)], of 3 ?work1 df] w1 by simp
  also have "\<dots> = rows_applied ?work2 ?df2"
    using rows_applied_append[OF completed_upto[OF c1], of 3 ?work2 ?df1] w2 by simp
  finally have fin: "rows_applied ?work2 ?df2 = rows_applied work df" by simp
  have loop: "row_loop 3 work df 0 x =
           (Inr (rows_applied work df, 1),
            x\<lparr>saved := saved x @ [rows_applied (upto_change 3 work) df,
                                  rows_applied (upto_change 6 work) df]\<rparr>)"
    using s1 s2 s3 fin d2 by simp
  then have "main_rows 3 work df x =
           (None, x\<lparr>saved := saved x @ [rows_applied (upto_change 3 work) df,
                                        rows_applied (upto_change 6 work) df,
                                        rows_applied work df]\<rparr>)"
    using assms(3) by (simp add: main_rows_def write_back_ok)
  then show ?thesis using loop by (simp add: rows_applied_length)
qed

theorem checkpoint_three_of_seven_witness:
  "main_rows 3
     [(0, RowDone ''a'' True), (1, RowDone ''b'' True), (2, RowDone ''c'' False),
      (3, RowDone ''d'' True), (4, RowDone ''e'' True), (5, RowDone ''f'' True),
      (6, RowDone ''g'' True), (7, RowDone ''h'' False), (8, RowDone ''i'' True)]
     (replicate 10 [])
     \<lparr>saved = [], write_faults = []\<rparr>
   = (None,
      \<lparr>saved = [[''a'', ''b'', ''c'', ''d'', [], [], [], [], [], []],
                [''a'', ''b'', ''c'', ''d'', ''e'', ''f'', ''g'', [], [], []],
                [''a'', ''b'', ''c'', ''d'', ''e'', ''f'', ''g'', ''h'', ''i'', []]],
       write_faults = []\<rparr>)"
  using checkpoint_three_of_seven[of
     "[(0, RowDone ''a'' True), (1, RowDone ''b'' True), (2, RowDone ''c'' False),
      (3, RowDone ''d'' True), (4, RowDone ''e'' True), (5, RowDone ''f'' True),
      (6, RowDone ''g'' True), (7, RowDone ''h'' False), (8, RowDone ''i'' True)]"
     "\<lparr>saved = [], write_faults = []\<rparr>" "replicate 10 []"]
  by (simp add: numeral_eq_Suc)

section \<open>The statement reconciler\<close>

lemma strip_nonempty_iff: "strip s \<noteq> [] \<longleftrightarrow> (\<exists>c \<in> set s. \<not> is_space c)"
proof -
  have "strip s = [] \<longleftrightarrow> dropWhile is_space (rev (dropWhile is_space s)) = []"
    by (simp add: strip_def)
  also have "\<dots> \<longleftrightarrow> (\<forall>c \<in> set (dropWhile is_space s). is_space c)"
    by (simp add: dropWhile_eq_Nil_conv)
  also have "\<dots> \<longleftrightarrow> dropWhile is_space s = []"
    by (metis dropWhile_eq_Nil_conv dropWhile_idem)
  also have "\<dots> \<longleftrightarrow> (\<forall>c \<in> set s. is_space c)"
    by (simp add: dropWhile_eq_Nil_conv)
  finally show ?thesis by blast
qed

lemma dropWhile_rev_tail:
  "xs = [] \<or> \<not> P (hd xs) \<Longrightarrow> dropWhile P (rev (dropWhile P (rev xs))) = rev (dropWhile P (rev xs))"
proof (cases xs)
  case Nil
  then show ?thesis by simp
next
  case (Cons x xs')
  assume "xs = [] \<or> \<not> P (hd xs)"
  with Cons have nx: "\<not> P x" by simp
  have "\<exists>ys. dropWhile P (rev xs' @ [x]) = ys @ [x]"
    by (cases "\<forall>y \<in> set (rev xs'). P y") (auto simp: dropWhile_append nx)
  then obtain ys where "dropWhile P (rev xs) = ys @ [x]" using Cons by auto
  then show ?thesis using nx by simp
qed

lemma strip_idem: "strip (strip s) = strip s"
proof -
  let ?t = "dropWhile is_space s"
  have h: "?t = [] \<or> \<not> is_space (hd ?t)" by (metis hd_dropWhile)
  have a: "dropWhile is_space (rev (dropWhile is_space (rev ?t))) = rev (dropWhile is_space (rev ?t))"
    using dropWhile_rev_tail[of ?t is_space] h by blast
  show ?thesis
    unfolding strip_def by (simp add: a dropWhile_idem)
qed

lemma new_guid_usable: "usable_text (JStr (new_guid mid n)) = Some (new_guid mid n)"
proof -
  have "CHR ''$'' \<in> set (new_guid mid n)" by (simp add: new_guid_def)
  moreover have "\<not> is_space (CHR ''$'')" by (simp add: is_space_def)
  ultimately have "strip (new_guid mid n) \<noteq> []" using strip_nonempty_iff by blast
  then show ?thesis by (simp add: usable_text_def)
qed

lemma get_claims_served:
  assumes "scripted_gets w = []" and "is_mid (strip mid)"
  shows "get_p7482_claims mid w =
     (Inr (stored_claims mid P_SOURCE_OF_FILE w),
      w\<lparr>trace := trace w @ [EGet (WbGetClaims mid P_SOURCE_OF_FILE)]\<rparr>)"
  using assms
  by (simp add: get_p7482_claims_def mw_request_def http_get_def serve_get_def Let_def
        raises_for_status_def)

lemma mw_mutate_served:
  assumes "scripted_posts w = []" and "tok \<noteq> []"
    and "serve_post rq (w\<lparr>trace := trace w @ [EPost rq tok]\<rparr>) = (j, w')"
    and "contains_error_key j = Inr False"
  shows "mw_mutate USER_AGENT 4 1 rq tok w = (Inr (j, tok), w')"
proof -
  have p: "http_post rq tok w = (Response 200 RaNone (Json j), w')"
    using assms(1,3) by (simp add: http_post_def Let_def)
  have "mw_attempt USER_AGENT 4 1 rq (Suc 0) tok w = (Return j tok, w')"
    using attempt_success[OF p _ _ assms(4)] status_2xx[of 200] by simp
  then have "mw_mutate_loop USER_AGENT 4 1 rq 0 tok w = (Inr (j, tok), w')"
    by (simp add: loop_unfold)
  then show ?thesis using mw_mutate_valid[OF assms(2) user_agent_ok, of 1 4 rq w] by simp
qed


lemma strip_nonempty_D: "strip s \<noteq> [] \<Longrightarrow> s \<noteq> []"
  by (auto simp: strip_def)

lemma item_value_no_error [simp]: "contains_error_key (JObj [(''success'', JInt 1)]) = Inr False"
  by simp

lemma create_served:
  assumes "scripted_posts w = []" and "strip csrf \<noteq> []" and "is_mid (strip mid)"
  shows "create_p7482_claim csrf mid w =
     (Inr (JStr (new_guid mid (next_guid w)), csrf),
      w\<lparr>trace := trace w @ [EPost (WbCreateClaim mid P_SOURCE_OF_FILE (item_value Q_FILE_ONLINE)) csrf],
        statements := statements w @
          [(mid, P_SOURCE_OF_FILE,
            JObj [(''id'', JStr (new_guid mid (next_guid w))),
                  (''mainsnak'', snak_of P_SOURCE_OF_FILE (item_value Q_FILE_ONLINE)),
                  (''type'', JStr ''statement''), (''rank'', JStr ''normal'')])],
        next_guid := Suc (next_guid w)\<rparr>)"
proof -
  let ?rq = "WbCreateClaim mid P_SOURCE_OF_FILE (item_value Q_FILE_ONLINE)"
  let ?c = "JObj [(''id'', JStr (new_guid mid (next_guid w))),
                  (''mainsnak'', snak_of P_SOURCE_OF_FILE (item_value Q_FILE_ONLINE)),
                  (''type'', JStr ''statement''), (''rank'', JStr ''normal'')]"
  let ?w' = "w\<lparr>trace := trace w @ [EPost ?rq csrf],
        statements := statements w @ [(mid, P_SOURCE_OF_FILE, ?c)],
        next_guid := Suc (next_guid w)\<rparr>"
  have sp: "serve_post ?rq (w\<lparr>trace := trace w @ [EPost ?rq csrf]\<rparr>)
      = (JObj [(''success'', JInt 1), (''claim'', ?c)], ?w')"
    by (simp add: serve_post_def Let_def)
  have m: "mw_mutate USER_AGENT 4 1 ?rq csrf w = (Inr (JObj [(''success'', JInt 1), (''claim'', ?c)], csrf), ?w')"
    using mw_mutate_served[OF assms(1) strip_nonempty_D[OF assms(2)] sp] by simp
  show ?thesis using assms(2,3) by (simp add: create_p7482_claim_def m)
qed

lemma add_qualifier_url_served:
  assumes "scripted_posts w = []" and "csrf \<noteq> []" and "strip cid \<noteq> []" and "strip pid \<noteq> []"
    and "strip url \<noteq> []" and "urlparse (strip url) = Inr (scheme, netloc)"
    and "scheme = ''http'' \<or> scheme = ''https''" and "netloc \<noteq> []"
    and "list_ex (\<lambda>(m, p, c). has_claim_id cid c) (statements w)"
  shows "add_qualifier_url urlparse csrf (JStr cid) pid url w =
     (Inr (JObj [(''success'', JInt 1)], csrf),
      w\<lparr>trace := trace w @ [EPost (WbSetQualifier cid pid (JStr (strip url))) csrf],
        statements := map (\<lambda>(m, p, c). (m, p, if has_claim_id cid c
                             then with_qualifier pid (JStr (strip url)) c else c)) (statements w)\<rparr>)"
proof -
  let ?rq = "WbSetQualifier cid pid (JStr (strip url))"
  let ?w' = "w\<lparr>trace := trace w @ [EPost ?rq csrf],
        statements := map (\<lambda>(m, p, c). (m, p, if has_claim_id cid c
                             then with_qualifier pid (JStr (strip url)) c else c)) (statements w)\<rparr>"
  have sp: "serve_post ?rq (w\<lparr>trace := trace w @ [EPost ?rq csrf]\<rparr>) = (JObj [(''success'', JInt 1)], ?w')"
    using assms(9) by (simp add: serve_post_def)
  have m: "mw_mutate USER_AGENT 4 1 ?rq csrf w = (Inr (JObj [(''success'', JInt 1)], csrf), ?w')"
    using mw_mutate_served[OF assms(1,2) sp] by simp
  show ?thesis
    using assms(3-8) by (auto simp: add_qualifier_url_def usable_text_def m after_mutate_def)
qed

lemma add_qualifier_q_served:
  assumes "scripted_posts w = []" and "csrf \<noteq> []" and "strip cid \<noteq> []" and "strip pid \<noteq> []"
    and "0 < q"
    and "list_ex (\<lambda>(m, p, c). has_claim_id cid c) (statements w)"
  shows "add_qualifier_q csrf (JStr cid) pid q w =
     (Inr (JObj [(''success'', JInt 1)], csrf),
      w\<lparr>trace := trace w @ [EPost (WbSetQualifier cid pid (item_value q)) csrf],
        statements := map (\<lambda>(m, p, c). (m, p, if has_claim_id cid c
                             then with_qualifier pid (item_value q) c else c)) (statements w)\<rparr>)"
proof -
  let ?rq = "WbSetQualifier cid pid (item_value q)"
  let ?w' = "w\<lparr>trace := trace w @ [EPost ?rq csrf],
        statements := map (\<lambda>(m, p, c). (m, p, if has_claim_id cid c
                             then with_qualifier pid (item_value q) c else c)) (statements w)\<rparr>"
  have sp: "serve_post ?rq (w\<lparr>trace := trace w @ [EPost ?rq csrf]\<rparr>) = (JObj [(''success'', JInt 1)], ?w')"
    using assms(6) by (simp add: serve_post_def)
  have m: "mw_mutate USER_AGENT 4 1 ?rq csrf w = (Inr (JObj [(''success'', JInt 1)], csrf), ?w')"
    using mw_mutate_served[OF assms(1,2) sp] by simp
  show ?thesis
    using assms(3-5) by (auto simp: add_qualifier_q_def usable_text_def m after_mutate_def)
qed

lemma stored_claims_map:
  "map (\<lambda>(m, p, c). c) (filter (\<lambda>(m, p, c). m = mid \<and> p = prop)
        (map (\<lambda>(m, p, c). (m, p, f c)) xs))
   = map f (map (\<lambda>(m, p, c). c) (filter (\<lambda>(m, p, c). m = mid \<and> p = prop) xs))"
  by (induction xs) auto

lemma value_q_with_qualifier:
  "claim_has_value_q (with_qualifier prop val c) q = claim_has_value_q c q"
  by (cases c) (simp_all add: with_qualifier_def claim_has_value_q_def Let_def update_conv')

lemma claim_id_with_qualifier:
  "has_claim_id cid (with_qualifier prop val c) = has_claim_id cid c"
  by (cases c) (simp_all add: with_qualifier_def has_claim_id_def Let_def update_conv')

lemma find_last:
  "\<forall>x \<in> set xs. \<not> P x \<Longrightarrow> P y \<Longrightarrow> List.find P (xs @ [y]) = Some y"
  by (induction xs) auto


lemma new_guid_strip: "strip (new_guid mid n) \<noteq> []"
  using new_guid_usable[of mid n] by (auto simp: usable_text_def split: if_splits)

lemma prop_ids_usable: "strip P_DESCRIBED_AT_URL \<noteq> []" "strip P_OPERATOR \<noteq> []"
  by (simp_all add: P_DESCRIBED_AT_URL_def P_OPERATOR_def strip_def is_space_def)

lemma qualified_claim_eq:
  "with_qualifier P_OPERATOR (item_value Q_DELPHER)
     (with_qualifier P_DESCRIBED_AT_URL (JStr (strip u))
        (JObj [(''id'', JStr g), (''mainsnak'', snak_of P_SOURCE_OF_FILE (item_value Q_FILE_ONLINE)),
               (''type'', JStr ''statement''), (''rank'', JStr ''normal'')]))
   = JObj [(''id'', JStr g), (''mainsnak'', snak_of P_SOURCE_OF_FILE (item_value Q_FILE_ONLINE)),
           (''type'', JStr ''statement''), (''rank'', JStr ''normal''),
           (''qualifiers'', JObj [(P_DESCRIBED_AT_URL, JList [snak_of P_DESCRIBED_AT_URL (JStr (strip u))]),
                                  (P_OPERATOR, JList [snak_of P_OPERATOR (item_value Q_DELPHER)])])]"
  by (simp add: with_qualifier_def Let_def P_DESCRIBED_AT_URL_def P_OPERATOR_def)

lemma fresh_claim_facts:
  "has_claim_id g (JObj [(''id'', JStr g), (''mainsnak'', snak_of P_SOURCE_OF_FILE (item_value Q_FILE_ONLINE)),
                         (''type'', JStr ''statement''), (''rank'', JStr ''normal'')])
   \<and> claim_has_value_q (JObj [(''id'', JStr g), (''mainsnak'', snak_of P_SOURCE_OF_FILE (item_value Q_FILE_ONLINE)),
                         (''type'', JStr ''statement''), (''rank'', JStr ''normal'')]) Q_FILE_ONLINE
   \<and> dict_get (with_qualifier P_OPERATOR (item_value Q_DELPHER)
     (with_qualifier P_DESCRIBED_AT_URL (JStr (strip u))
        (JObj [(''id'', JStr g), (''mainsnak'', snak_of P_SOURCE_OF_FILE (item_value Q_FILE_ONLINE)),
               (''type'', JStr ''statement''), (''rank'', JStr ''normal'')]))) ''id'' = Inr (JStr g)
   \<and> claim_has_qualifier_url (with_qualifier P_OPERATOR (item_value Q_DELPHER)
     (with_qualifier P_DESCRIBED_AT_URL (JStr (strip u))
        (JObj [(''id'', JStr g), (''mainsnak'', snak_of P_SOURCE_OF_FILE (item_value Q_FILE_ONLINE)),
               (''type'', JStr ''statement''), (''rank'', JStr ''normal'')]))) P_DESCRIBED_AT_URL u = Inr True
   \<and> claim_has_qualifier_q (with_qualifier P_OPERATOR (item_value Q_DELPHER)
     (with_qualifier P_DESCRIBED_AT_URL (JStr (strip u))
        (JObj [(''id'', JStr g), (''mainsnak'', snak_of P_SOURCE_OF_FILE (item_value Q_FILE_ONLINE)),
               (''type'', JStr ''statement''), (''rank'', JStr ''normal'')]))) P_OPERATOR Q_DELPHER = Inr True"
  unfolding qualified_claim_eq
  by (simp add: has_claim_id_def claim_has_value_q_def snak_of_def item_value_def
        claim_has_qualifier_url_def qualifier_snaks_def snak_is_url_def snak_datavalue_def
        claim_has_qualifier_q_def snak_is_q_def strip_idem P_DESCRIBED_AT_URL_def P_OPERATOR_def)

text \<open>
  C1. On a wiki that answers by itself (nothing scripted: reads show what is stored,
  writes take effect), for an identifier of the form \<open>M<digits>\<close>, a resolver URL that
  passes the checks of \<open>ensure_statement\<close> and of \<open>add_qualifier_url\<close>, and an entity
  with no P7482 claim of value Q74228490: the first call returns \<open>created\<close> after one
  read, one \<open>wbcreateclaim\<close> and two \<open>wbsetqualifier\<close> (P973, then P137); the same
  call made again returns \<open>already-present\<close> for the same claim after one read and no
  write.
\<close>

theorem ensure_statement_idempotent:
  assumes "scripted_gets w = []" and "scripted_posts w = []"
    and "is_mid (strip mid)" and "strip csrf \<noteq> []"
    and "strip resolver_url \<noteq> []"
    and "startswith resolver_url ''http://'' \<or> startswith resolver_url ''https://''"
    and "urlparse (strip resolver_url) = Inr (scheme, netloc)"
    and "scheme = ''http'' \<or> scheme = ''https''" and "netloc \<noteq> []"
    and "\<forall>cl \<in> set (stored_claims mid P_SOURCE_OF_FILE w). \<not> claim_has_value_q cl Q_FILE_ONLINE"
    and "first = ensure_statement urlparse csrf mid resolver_url w"
    and "second = ensure_statement urlparse csrf mid resolver_url (snd first)"
    and "cid = new_guid mid (next_guid w)"
  shows "fst first = Inr (''created'', JStr cid, csrf)
     \<and> new_events w (snd first) =
         [EGet (WbGetClaims mid P_SOURCE_OF_FILE),
          EPost (WbCreateClaim mid P_SOURCE_OF_FILE (item_value Q_FILE_ONLINE)) csrf,
          EPost (WbSetQualifier cid P_DESCRIBED_AT_URL (JStr (strip resolver_url))) csrf,
          EPost (WbSetQualifier cid P_OPERATOR (item_value Q_DELPHER)) csrf]
     \<and> fst second = Inr (''already-present'', JStr cid, csrf)
     \<and> new_events (snd first) (snd second) = [EGet (WbGetClaims mid P_SOURCE_OF_FILE)]
     \<and> statements (snd second) = statements (snd first)"
proof -
  let ?P = P_SOURCE_OF_FILE
  let ?v1 = "JStr (strip resolver_url)"
  let ?v2 = "item_value Q_DELPHER"
  let ?c0 = "JObj [(''id'', JStr cid), (''mainsnak'', snak_of ?P (item_value Q_FILE_ONLINE)),
                   (''type'', JStr ''statement''), (''rank'', JStr ''normal'')]"
  let ?f1 = "\<lambda>c. if has_claim_id cid c then with_qualifier P_DESCRIBED_AT_URL ?v1 c else c"
  let ?f2 = "\<lambda>c. if has_claim_id cid c then with_qualifier P_OPERATOR ?v2 c else c"
  let ?u1 = "\<lambda>(m, p, c). (m, p, ?f1 c)"
  let ?u2 = "\<lambda>(m, p, c). (m, p, ?f2 c)"
  define wA where "wA = w\<lparr>trace := trace w @ [EGet (WbGetClaims mid ?P)]\<rparr>"
  define wB where "wB = wA\<lparr>trace := trace wA @ [EPost (WbCreateClaim mid ?P (item_value Q_FILE_ONLINE)) csrf],
        statements := statements wA @ [(mid, ?P, ?c0)], next_guid := Suc (next_guid wA)\<rparr>"
  define wC where "wC = wB\<lparr>trace := trace wB @ [EPost (WbSetQualifier cid P_DESCRIBED_AT_URL ?v1) csrf],
        statements := map ?u1 (statements wB)\<rparr>"
  define wD where "wD = wC\<lparr>trace := trace wC @ [EPost (WbSetQualifier cid P_OPERATOR ?v2) csrf],
        statements := map ?u2 (statements wC)\<rparr>"
  define wE where "wE = wD\<lparr>trace := trace wD @ [EGet (WbGetClaims mid ?P)]\<rparr>"
  have csrf: "csrf \<noteq> []" using assms(4) by (rule strip_nonempty_D)
  have mid: "strip mid \<noteq> []" using assms(3) by (auto simp: is_mid_def)
  have qd: "0 < Q_DELPHER" by (simp add: Q_DELPHER_def)
  have sg: "strip cid \<noteq> []" using new_guid_strip[of mid "next_guid w"] assms(13) by simp
  have spB: "scripted_posts wB = []" and spC: "scripted_posts wC = []"
    using assms(2) by (simp_all add: wA_def wB_def wC_def)
  have ff: "has_claim_id cid ?c0" "claim_has_value_q ?c0 Q_FILE_ONLINE"
    "dict_get (with_qualifier P_OPERATOR ?v2 (with_qualifier P_DESCRIBED_AT_URL ?v1 ?c0)) ''id'' = Inr (JStr cid)"
    "claim_has_qualifier_url (with_qualifier P_OPERATOR ?v2 (with_qualifier P_DESCRIBED_AT_URL ?v1 ?c0))
       P_DESCRIBED_AT_URL resolver_url = Inr True"
    "claim_has_qualifier_q (with_qualifier P_OPERATOR ?v2 (with_qualifier P_DESCRIBED_AT_URL ?v1 ?c0))
       P_OPERATOR Q_DELPHER = Inr True"
    using fresh_claim_facts[of cid resolver_url] by blast+
  \<comment> \<open>the first call\<close>
  have g1: "get_p7482_claims mid w = (Inr (stored_claims mid ?P w), wA)"
    using get_claims_served[OF assms(1,3)] by (simp add: wA_def)
  have none: "List.find (\<lambda>cl. claim_has_value_q cl Q_FILE_ONLINE) (stored_claims mid ?P w) = None"
    using assms(10) by (simp add: find_None_iff)
  have cr: "create_p7482_claim csrf mid wA = (Inr (JStr cid, csrf), wB)"
    using create_served[of wA csrf mid] assms(2,3,4,13) by (simp add: wA_def wB_def)
  have exB: "list_ex (\<lambda>(m, p, c). has_claim_id cid c) (statements wB)"
    using ff(1) by (simp add: wB_def list_ex_iff)
  have au: "add_qualifier_url urlparse csrf (JStr cid) P_DESCRIBED_AT_URL resolver_url wB
      = (Inr (JObj [(''success'', JInt 1)], csrf), wC)"
    using add_qualifier_url_served[where w = wB and csrf = csrf and cid = cid
        and pid = P_DESCRIBED_AT_URL and url = resolver_url and urlparse = urlparse
        and scheme = scheme and netloc = netloc]
      spB csrf sg prop_ids_usable(1) assms(5,7,8,9) exB
    by (simp add: wC_def)
  have exC: "list_ex (\<lambda>(m, p, c). has_claim_id cid c) (statements wC)"
    using ff(1) by (simp add: wC_def wB_def list_ex_iff claim_id_with_qualifier)
  have aq: "add_qualifier_q csrf (JStr cid) P_OPERATOR Q_DELPHER wC
      = (Inr (JObj [(''success'', JInt 1)], csrf), wD)"
    using add_qualifier_q_served[where w = wC and csrf = csrf and cid = cid
        and pid = P_OPERATOR and q = Q_DELPHER]
      spC csrf sg prop_ids_usable(2) qd exC
    by (simp add: wD_def)
  have r1: "first = (Inr (''created'', JStr cid, csrf), wD)"
    using assms(5,6) mid by (simp add: assms(11) ensure_statement_def g1 none cr au aq)
  \<comment> \<open>the second call\<close>
  have gD: "scripted_gets wD = []" "scripted_posts wD = []"
    using assms(1,2) by (simp_all add: wA_def wB_def wC_def wD_def)
  have g2: "get_p7482_claims mid wD = (Inr (stored_claims mid ?P wD), wE)"
    using get_claims_served[OF gD(1) assms(3)] by (simp add: wE_def)
  have stD: "stored_claims mid ?P wD
      = map ?f2 (map ?f1 (stored_claims mid ?P w)) @ [?f2 (?f1 ?c0)]"
  proof -
    have sB: "stored_claims mid ?P wB = stored_claims mid ?P w @ [?c0]"
      by (simp add: stored_claims_def wB_def wA_def)
    have eC: "statements wC = map ?u1 (statements wB)" by (simp add: wC_def)
    have eD: "statements wD = map ?u2 (statements wC)" by (simp add: wD_def)
    have sC: "stored_claims mid ?P wC = map ?f1 (stored_claims mid ?P wB)"
      unfolding stored_claims_def eC by (rule stored_claims_map)
    have sD: "stored_claims mid ?P wD = map ?f2 (stored_claims mid ?P wC)"
      unfolding stored_claims_def eD by (rule stored_claims_map)
    show ?thesis unfolding sD sC sB by simp
  qed
  have c2: "?f2 (?f1 ?c0) = with_qualifier P_OPERATOR ?v2 (with_qualifier P_DESCRIBED_AT_URL ?v1 ?c0)"
    using ff(1) by (simp add: claim_id_with_qualifier)
  have old: "\<forall>cl \<in> set (map ?f2 (map ?f1 (stored_claims mid ?P w))). \<not> claim_has_value_q cl Q_FILE_ONLINE"
    using assms(10) by (auto simp: value_q_with_qualifier)
  have new: "claim_has_value_q (?f2 (?f1 ?c0)) Q_FILE_ONLINE"
    using ff(2) by (simp add: c2 value_q_with_qualifier)
  have found: "List.find (\<lambda>cl. claim_has_value_q cl Q_FILE_ONLINE) (stored_claims mid ?P wD)
      = Some (with_qualifier P_OPERATOR ?v2 (with_qualifier P_DESCRIBED_AT_URL ?v1 ?c0))"
  proof -
    have "List.find (\<lambda>cl. claim_has_value_q cl Q_FILE_ONLINE)
            (map ?f2 (map ?f1 (stored_claims mid ?P w)) @ [?f2 (?f1 ?c0)]) = Some (?f2 (?f1 ?c0))"
      by (rule find_last[of "map ?f2 (map ?f1 (stored_claims mid ?P w))"
            "\<lambda>cl. claim_has_value_q cl Q_FILE_ONLINE" "?f2 (?f1 ?c0)", OF old new])
    then show ?thesis by (simp only: stD c2)
  qed
  have r2: "ensure_statement urlparse csrf mid resolver_url wD = (Inr (''already-present'', JStr cid, csrf), wE)"
    using assms(5,6) mid by (simp add: ensure_statement_def g2 found ff(3,4,5))
  have t1: "new_events w wD =
         [EGet (WbGetClaims mid ?P),
          EPost (WbCreateClaim mid ?P (item_value Q_FILE_ONLINE)) csrf,
          EPost (WbSetQualifier cid P_DESCRIBED_AT_URL ?v1) csrf,
          EPost (WbSetQualifier cid P_OPERATOR ?v2) csrf]"
    by (simp add: new_events_def wD_def wC_def wB_def wA_def)
  have t2: "new_events wD wE = [EGet (WbGetClaims mid ?P)]" "statements wE = statements wD"
    by (simp_all add: new_events_def wE_def)
  show ?thesis using r1 r2 t1 t2 by (simp add: assms(12))
qed


theorem ensure_statement_idempotent_witness:
  "fst (ensure_statement (\<lambda>u. Inr (''https'', ''resolver.kb.nl'')) ''tok'' ''M42''
          ''https://resolver.kb.nl/resolve?urn=ddd:010'' wiki0)
     = Inr (''created'', JStr ''M42$A'', ''tok'')
   \<and> fst (ensure_statement (\<lambda>u. Inr (''https'', ''resolver.kb.nl'')) ''tok'' ''M42''
          ''https://resolver.kb.nl/resolve?urn=ddd:010''
          (snd (ensure_statement (\<lambda>u. Inr (''https'', ''resolver.kb.nl'')) ''tok'' ''M42''
                  ''https://resolver.kb.nl/resolve?urn=ddd:010'' wiki0)))
     = Inr (''already-present'', JStr ''M42$A'', ''tok'')"
proof -
  have m: "is_mid (strip ''M42'')" by (simp add: is_mid_def strip_def is_space_def is_digit_def)
  have t: "strip ''tok'' \<noteq> []" by (simp add: strip_def is_space_def)
  have u: "strip ''https://resolver.kb.nl/resolve?urn=ddd:010'' \<noteq> []"
    by (simp add: strip_nonempty_iff is_space_def)
  have s: "startswith ''https://resolver.kb.nl/resolve?urn=ddd:010'' ''http://''
           \<or> startswith ''https://resolver.kb.nl/resolve?urn=ddd:010'' ''https://''"
    by (simp add: startswith_def)
  have e: "\<forall>cl \<in> set (stored_claims ''M42'' P_SOURCE_OF_FILE wiki0). \<not> claim_has_value_q cl Q_FILE_ONLINE"
    by (simp add: stored_claims_def wiki0_def)
  have g: "new_guid ''M42'' 0 = ''M42$A''" by (simp add: new_guid_def)
  show ?thesis
    using ensure_statement_idempotent[where w = wiki0 and mid = "''M42''" and csrf = "''tok''"
        and resolver_url = "''https://resolver.kb.nl/resolve?urn=ddd:010''"
        and urlparse = "\<lambda>u. Inr (''https'', ''resolver.kb.nl'')"
        and scheme = "''https''" and netloc = "''resolver.kb.nl''",
        OF _ _ m t u s _ _ _ e refl refl refl]
    by (simp add: g wiki0_def)
qed





section \<open>The caption block\<close>

lemma mw_request_trace: "trace (snd (mw_request g w)) = trace w @ [EGet g]"
  using http_get_trace[of g w]
  by (auto simp: mw_request_def Let_def split: prod.splits reply.splits body.splits)

lemma get_existing_labels_events:
  "\<exists>evs. trace (snd (get_existing_labels mid w)) = trace w @ evs
         \<and> (\<forall>ev \<in> set evs. \<forall>l. \<not> is_label_write l ev)"
proof (cases "strip mid = [] \<or> \<not> is_mid (strip mid)")
  case True
  then have "snd (get_existing_labels mid w) = w" by (auto simp: get_existing_labels_def)
  then show ?thesis by simp
next
  case False
  let ?g = "WbGetEntities (CHR ''M'' # tl (strip mid))"
  obtain x w1 where m: "mw_request ?g w = (x, w1)" by (cases "mw_request ?g w")
  then have t: "trace w1 = trace w @ [EGet ?g]" using mw_request_trace[of ?g w] by simp
  have "snd (get_existing_labels mid w) = w1"
    using False m
    by (auto simp: get_existing_labels_def Let_def
          split: sum.splits error.splits json.splits option.splits list.splits)
  then show ?thesis using t by simp
qed

lemma set_label_events:
  "\<exists>evs. trace (snd (set_label csrf mid lang v w)) = trace w @ evs
         \<and> (\<forall>ev \<in> set evs. \<forall>l. is_label_write l ev \<longrightarrow> l = strip lang)"
proof (cases "(strip mid = [] \<or> \<not> is_mid (strip mid)) \<or> strip lang = [] \<or> strip v = []")
  case True
  then have "snd (set_label csrf mid lang v w) = w" by (auto simp: set_label_def)
  then show ?thesis by simp
next
  case False
  let ?rq = "WbSetLabel (strip mid) (strip lang) v"
  obtain x w1 where m: "mw_mutate USER_AGENT 4 1 ?rq csrf w = (x, w1)"
    by (cases "mw_mutate USER_AGENT 4 1 ?rq csrf w")
  obtain evs where t: "trace w1 = trace w @ evs" and a: "list_all (of_mutate ?rq) evs"
    using mw_mutate_trace[of USER_AGENT 4 1 ?rq csrf w] m by auto
  have "snd (set_label csrf mid lang v w) = w1"
    using False m
    by (auto simp: set_label_def split: sum.splits error.splits json.splits)
  moreover have "\<forall>ev \<in> set evs. \<forall>l. is_label_write l ev \<longrightarrow> l = strip lang"
  proof (intro ballI allI impI)
    fix ev l assume "ev \<in> set evs" and w: "is_label_write l ev"
    then have "of_mutate ?rq ev" using a by (simp add: list_all_iff)
    then show "l = strip lang" using w
      by (cases ev) (auto elim: is_label_write.elims)
  qed
  ultimately show ?thesis using t by auto
qed

lemma lang_codes: "strip ''en'' = ''en''" "strip ''nl'' = ''nl''"
  by (simp_all add: strip_def is_space_def)


lemma new_events_append: "trace w' = trace w @ evs \<Longrightarrow> new_events w w' = evs"
  by (simp add: new_events_def)

lemma on_caption_error_en:
  "filled (caption_en_status r) \<Longrightarrow> caption_en_status (on_caption_error e r) = caption_en_status r"
  by (simp add: on_caption_error_def)

text \<open>
  C6, as amended. When the read of the labels returns a map that contains a language
  of \<open>{en, nl}\<close>, the caption block of \<open>main\<close> makes no \<open>wbsetlabel\<close> request for that
  language, whatever the candidate. For \<open>en\<close> it records \<open>already-present\<close> in every
  case; for \<open>nl\<close> it does so whenever the step for \<open>en\<close> did not raise, that is when
  \<open>en\<close> was present too or its label was set.
\<close>

theorem captions_never_overwritten:
  assumes "get_existing_labels mid w = (Inr labels, w1)" and "strip candidate \<noteq> []"
    and "res = caption_block csrf mid candidate (r, changed) w"
  shows "(map_of labels ''en'' \<noteq> None \<longrightarrow>
            caption_en_status (fst (fst res)) = Text ''already-present''
            \<and> \<not> list_ex (is_label_write ''en'') (new_events w (snd res)))
       \<and> (map_of labels ''nl'' \<noteq> None \<longrightarrow>
            \<not> list_ex (is_label_write ''nl'') (new_events w (snd res))
            \<and> (map_of labels ''en'' \<noteq> None
                 \<or> (\<exists>j. fst (set_label csrf mid ''en'' candidate w1) = Inr j)
               \<longrightarrow> caption_nl_status (fst (fst res)) = Text ''already-present''))"
proof -
  let ?r1 = "r\<lparr>caption_candidate := candidate\<rparr>"
  obtain evs0 where t0: "trace w1 = trace w @ evs0"
    and n0: "\<forall>ev \<in> set evs0. \<forall>l. \<not> is_label_write l ev"
    using get_existing_labels_events[of mid w] assms(1) by auto
  show ?thesis
  proof (cases "map_of labels ''en'' = None")
    case en_absent: True
    obtain xe we where se: "set_label csrf mid ''en'' candidate w1 = (xe, we)"
      by (cases "set_label csrf mid ''en'' candidate w1")
    obtain evse where te: "trace we = trace w1 @ evse"
      and ne: "\<forall>ev \<in> set evse. \<forall>l. is_label_write l ev \<longrightarrow> l = ''en''"
      using set_label_events[of csrf mid "''en''" candidate w1] se by (auto simp: lang_codes)
    have tr: "new_events w we = evs0 @ evse"
      using t0 te by (simp add: new_events_def)
    have no_nl: "\<not> list_ex (is_label_write ''nl'') (evs0 @ evse)"
      using n0 ne by (auto simp: list_ex_iff)
    show ?thesis
    proof (cases xe)
      case (Inl e)
      then have "res = ((on_caption_error e ?r1, changed), we)"
        using assms(1,2) en_absent se by (simp add: assms(3) caption_block_def Let_def)
      then show ?thesis using en_absent se Inl tr no_nl by simp
    next
      case (Inr j)
      show ?thesis
      proof (cases "map_of labels ''nl'' = None")
        case True
        then show ?thesis using en_absent by simp
      next
        case False
        then obtain y where nl: "map_of labels ''nl'' = Some y" by auto
        have "res = ((?r1\<lparr>caption_en_status := Text ''created'',
                                 caption_nl_status := Text ''already-present''\<rparr>, True), we)"
          using assms(1,2) en_absent se Inr nl by (simp add: assms(3) caption_block_def Let_def)
        then show ?thesis using en_absent tr no_nl by simp
      qed
    qed
  next
    case False
    then obtain ye where en_present: "map_of labels ''en'' = Some ye" by auto
    show ?thesis
    proof (cases "map_of labels ''nl'' = None")
      case nl_absent: True
      let ?r2 = "?r1\<lparr>caption_en_status := Text ''already-present''\<rparr>"
      obtain xn wn where sn: "set_label csrf mid ''nl'' candidate w1 = (xn, wn)"
        by (cases "set_label csrf mid ''nl'' candidate w1")
      obtain evsn where tn: "trace wn = trace w1 @ evsn"
        and nn: "\<forall>ev \<in> set evsn. \<forall>l. is_label_write l ev \<longrightarrow> l = ''nl''"
        using set_label_events[of csrf mid "''nl''" candidate w1] sn by (auto simp: lang_codes)
      have tr: "new_events w wn = evs0 @ evsn"
        using t0 tn by (simp add: new_events_def)
      have no_en: "\<not> list_ex (is_label_write ''en'') (evs0 @ evsn)"
        using n0 nn by (auto simp: list_ex_iff)
      have "res = (case xn of Inl e \<Rightarrow> ((on_caption_error e ?r2, changed), wn)
                   | Inr j \<Rightarrow> ((?r2\<lparr>caption_nl_status := Text ''created''\<rparr>, True), wn))"
        using assms(1,2) en_present nl_absent sn
        by (simp add: assms(3) caption_block_def Let_def split: sum.splits)
      then show ?thesis using en_present nl_absent tr no_en
        by (cases xn) (simp_all add: on_caption_error_en)
    next
      case False
      then obtain yn where nl_present: "map_of labels ''nl'' = Some yn" by auto
      have "res = ((?r1\<lparr>caption_en_status := Text ''already-present'',
                               caption_nl_status := Text ''already-present''\<rparr>, changed), w1)"
        using assms(1,2) en_present nl_present by (simp add: assms(3) caption_block_def Let_def)
      moreover have "new_events w w1 = evs0" using t0 by (rule new_events_append)
      ultimately show ?thesis using n0 by (auto simp: list_ex_iff)
    qed
  qed
qed

theorem captions_never_overwritten_witness:
  "caption_en_status (fst (fst (caption_block ''tok'' ''M42'' ''Rotterdamsche courant 21-11-1840''
       (row0, False) (wiki0\<lparr>captions := [(''M42'', ''en'', ''old''), (''M42'', ''nl'', ''oud'')]\<rparr>))))
     = Text ''already-present''
   \<and> caption_nl_status (fst (fst (caption_block ''tok'' ''M42'' ''Rotterdamsche courant 21-11-1840''
       (row0, False) (wiki0\<lparr>captions := [(''M42'', ''en'', ''old''), (''M42'', ''nl'', ''oud'')]\<rparr>))))
     = Text ''already-present''"
proof -
  let ?w = "wiki0\<lparr>captions := [(''M42'', ''en'', ''old''), (''M42'', ''nl'', ''oud'')]\<rparr>"
  have m: "strip ''M42'' = ''M42''" "strip ''old'' = ''old''" "strip ''oud'' = ''oud''"
    by (simp_all add: strip_def is_space_def)
  have im: "is_mid ''M42''" by (simp add: is_mid_def is_digit_def)
  have g: "get_existing_labels ''M42'' ?w
       = (Inr [(''en'', ''old''), (''nl'', ''oud'')], ?w\<lparr>trace := [EGet (WbGetEntities ''M42'')]\<rparr>)"
    by (simp add: get_existing_labels_def m im mw_request_def http_get_def serve_get_def wiki0_def
          Let_def raises_for_status_def AList.delete_eq)
  have c: "strip ''Rotterdamsche courant 21-11-1840'' \<noteq> []"
    by (simp add: strip_nonempty_iff is_space_def)
  show ?thesis
    using captions_never_overwritten[OF g c refl, of "''tok''" row0 False] by simp
qed

text \<open>
  The claim C6 as stated fails for \<open>nl\<close>: with \<open>nl\<close> present and \<open>en\<close> absent, a
  refused write of \<open>en\<close> raises out of the block before \<open>nl\<close> is looked at, and the
  handler records an error in the empty status of \<open>nl\<close>.
\<close>

theorem caption_nl_status_counterexample:
  "fst (get_existing_labels ''M42''
          (wiki0\<lparr>captions := [(''M42'', ''nl'', ''oud'')],
                 scripted_posts := [Response 200 RaNone
                    (Json (JObj [(''error'', JObj [(''code'', JStr ''permissiondenied'')])]))]\<rparr>))
     = Inr [(''nl'', ''oud'')]
   \<and> caption_nl_status (fst (fst (caption_block ''tok'' ''M42'' ''Rotterdamsche courant 21-11-1840''
       (row0, False)
       (wiki0\<lparr>captions := [(''M42'', ''nl'', ''oud'')],
              scripted_posts := [Response 200 RaNone
                 (Json (JObj [(''error'', JObj [(''code'', JStr ''permissiondenied'')])]))]\<rparr>))))
     = ErrorText (RuntimeError ''wbsetlabel transport/error'')"
proof -
  let ?err = "Response 200 RaNone (Json (JObj [(''error'', JObj [(''code'', JStr ''permissiondenied'')])]))"
  let ?w = "wiki0\<lparr>captions := [(''M42'', ''nl'', ''oud'')], scripted_posts := [?err]\<rparr>"
  let ?w1 = "?w\<lparr>trace := [EGet (WbGetEntities ''M42'')]\<rparr>"
  have m: "strip ''M42'' = ''M42''" "strip ''oud'' = ''oud''" "strip ''en'' = ''en''"
    by (simp_all add: strip_def is_space_def)
  have im: "is_mid ''M42''" by (simp add: is_mid_def is_digit_def)
  have g: "get_existing_labels ''M42'' ?w = (Inr [(''nl'', ''oud'')], ?w1)"
    by (simp add: get_existing_labels_def m im mw_request_def http_get_def serve_get_def wiki0_def
          Let_def raises_for_status_def AList.delete_eq)
  have c: "strip ''Rotterdamsche courant 21-11-1840'' \<noteq> []"
    by (simp add: strip_nonempty_iff is_space_def)
  have l: "lower ''permissiondenied'' = ''permissiondenied''" by code_simp
  have mm: "mw_mutate USER_AGENT 4 1 (WbSetLabel ''M42'' ''en'' ''Rotterdamsche courant 21-11-1840'') ''tok'' ?w1
       = (Inl (ApiError ''wbsetlabel'' (JObj [(''code'', JStr ''permissiondenied'')])),
          ?w\<lparr>trace := [EGet (WbGetEntities ''M42''),
                           EPost (WbSetLabel ''M42'' ''en'' ''Rotterdamsche courant 21-11-1840'') ''tok''],
               scripted_posts := []\<rparr>)"
    by (simp add: mw_mutate_def user_agent_ok mw_mutate_loop.simps mw_attempt_def http_post_def
          wiki0_def Let_def api_error_code_def l RETRYABLE_STATUS_def raises_for_status_def
          RETRYABLE_API_CODES_def RETRYABLE_AUTH_CODES_def)
  have sl: "set_label ''tok'' ''M42'' ''en'' ''Rotterdamsche courant 21-11-1840'' ?w1
       = (Inl (RuntimeError ''wbsetlabel transport/error''),
          ?w\<lparr>trace := [EGet (WbGetEntities ''M42''),
                           EPost (WbSetLabel ''M42'' ''en'' ''Rotterdamsche courant 21-11-1840'') ''tok''],
               scripted_posts := []\<rparr>)"
    using c by (simp add: set_label_def m im mm)
  show ?thesis
    using c by (simp add: g sl caption_block_def Let_def row0_def on_caption_error_def)
qed

section \<open>The caption derived from a file title\<close>

text \<open>
  C9. The title \<open>File:Rotterdamsche courant 21-11-1840 (IA KBDDD02 000201168 mpeg21).pdf\<close>
  gives the caption \<open>Rotterdamsche courant 21-11-1840\<close>: the prefix \<open>File:\<close>, the
  extension and the trailing \<open>(IA ...)\<close> parenthetical are removed and the white space
  is trimmed and collapsed.
\<close>

theorem derive_caption_rotterdamsche_courant:
  "derive_caption_from_live_title
     ''File:Rotterdamsche courant 21-11-1840 (IA KBDDD02 000201168 mpeg21).pdf''
   = ''Rotterdamsche courant 21-11-1840''"
  by code_simp

end
